theory Spec2Isabelle
  imports Main "HOL-Library.List_Lexorder" "HOL-Library.Char_ord" "HOL-Library.Sublist"
begin

section \<open>Python values used by the agent\<close>

text \<open>
  A Python \<open>str\<close> is modelled as a \<open>string\<close>, one \<open>char\<close> for each character, so that
  \<open>len\<close> is \<open>length\<close>. Comparison of two \<open>str\<close> values
  (\<open>msg_id > self.last_processed_message_id\<close>) is lexicographic by character code with a
  proper prefix below its extensions, which is the order of \<open>HOL-Library.List_Lexorder\<close>
  over \<open>HOL-Library.Char_ord\<close>.

  Exceptions are values. Only subclasses of \<open>Exception\<close> are modelled (the ones an
  \<open>except Exception\<close> clause catches); \<open>KeyboardInterrupt\<close> is not.
\<close>

datatype exn =
    KeyError
  | TypeError
  | ValueError
  | UniqueViolation
  | OperationalError
  | TwitterConnectionError
  | TwitterConfigurationError
  | TwitterAPIError
  | OtherError string

text \<open>\<open>sub in s\<close> on two \<open>str\<close> values: \<open>sub\<close> occurs in \<open>s\<close> as a contiguous run.\<close>

fun str_in :: "string \<Rightarrow> string \<Rightarrow> bool" where
  "str_in sub [] = (sub = [])"
| "str_in sub (c # cs) = (prefix sub (c # cs) \<or> str_in sub cs)"

text \<open>
  \<open>s.lower()\<close>, on the letters \<open>A\<close> to \<open>Z\<close>. Every other character is left as it is; no
  character outside ASCII lower-cases to one of the characters of the tokens searched for
  below, so the membership tests of the message filter are not affected.
\<close>

definition lower_char :: "char \<Rightarrow> char" where
  "lower_char c =
     (case map_of (zip ''ABCDEFGHIJKLMNOPQRSTUVWXYZ'' ''abcdefghijklmnopqrstuvwxyz'') c of
        None \<Rightarrow> c
      | Some l \<Rightarrow> l)"

definition lower :: "string \<Rightarrow> string" where
  "lower s = map lower_char s"

text \<open>\<open>sep.join(parts)\<close>.\<close>

fun join :: "string \<Rightarrow> string list \<Rightarrow> string" where
  "join sep [] = []"
| "join sep [p] = p"
| "join sep (p # q # ps) = p @ sep @ join sep (q # ps)"

abbreviation NL :: string where
  "NL \<equiv> [CHR 0x0A]"

abbreviation SQ :: string where
  "SQ \<equiv> [CHR 0x27]"

section \<open>Messages, the outside world and the agent's state\<close>

text \<open>
  A fetched message is a dict with the keys \<open>id\<close>, \<open>message\<close> and \<open>author\<close>, here an
  association list from key to \<open>str\<close> value. \<open>msg['id']\<close> raises \<open>KeyError\<close> on a missing key,
  \<open>msg.get(key, '')\<close> falls back to the default.
\<close>

type_synonym message = "(string \<times> string) list"

definition msg_get :: "message \<Rightarrow> string \<Rightarrow> string \<Rightarrow> string" where
  "msg_get msg key dflt = (case map_of msg key of None \<Rightarrow> dflt | Some v \<Rightarrow> v)"

text \<open>
  \<open>src.connection_manager\<close> and the Discord and model connections behind it are not part of
  the sources at hand, and neither are the embedding service and the database server. Each
  external action the agent invokes is a parameter: a function of the hidden state \<open>'w\<close> of
  the outside world that returns a value or raises, and a new hidden state.
  \<^item> \<open>read_messages_action channel count\<close>:
    \<open>perform_action("discord", "read-messages", [channel, count])\<close>; \<open>None\<close> stands for a result
    that is \<open>None\<close>.
  \<^item> \<open>reply_to_message_action channel msg_id reply\<close>:
    \<open>perform_action("discord", "reply-to-message", [channel, msg_id, reply])\<close>; the boolean is
    the truth value of the result.
  \<^item> \<open>generate_text_action provider prompt system_prompt\<close>:
    \<open>perform_action(provider, "generate-text", [prompt, system_prompt])\<close>.
  \<^item> \<open>similarity_search query limit\<close>: the body of the \<open>try\<close> of \<open>get_similar_content\<close>
    (embedding of the query, then the nearest-neighbour query); \<open>str_row\<close> is \<open>str\<close> on a
    fetched row.
  \<^item> \<open>connect\<close>: \<open>psycopg2.connect(self.conn_string)\<close>, which may raise.
\<close>

record ('w, 'r) env =
  read_messages_action :: "string \<Rightarrow> nat \<Rightarrow> 'w \<Rightarrow> (exn + message list option) \<times> 'w"
  reply_to_message_action :: "string \<Rightarrow> string \<Rightarrow> string \<Rightarrow> 'w \<Rightarrow> (exn + bool) \<times> 'w"
  generate_text_action :: "string \<Rightarrow> string \<Rightarrow> string \<Rightarrow> 'w \<Rightarrow> (exn + string) \<times> 'w"
  similarity_search :: "string \<Rightarrow> nat \<Rightarrow> 'w \<Rightarrow> (exn + 'r list) \<times> 'w"
  str_row :: "'r \<Rightarrow> string"
  connect :: "'w \<Rightarrow> exn option \<times> 'w"

text \<open>
  Every \<open>perform_action\<close> the agent invokes is recorded, in order. A reply is recorded
  with its channel, message id and text, and with whether the action reported success
  (it returned a true value, rather than a false one or an exception).
\<close>

datatype call =
    ReadMessages string nat
  | GenerateText string string string
  | ReplyToMessage string string string bool

text \<open>
  The fields of \<open>DiscordAgent\<close> that the message pipeline reads or writes, the rows of the
  table \<open>message_tracking\<close> (its key columns \<open>channel_id\<close>, \<open>message_id\<close>; \<open>processed_at\<close> is
  read by no operation modelled here), the hidden state of the outside world and the
  actions performed so far.
\<close>

record 'w state =
  name :: string
  bio :: "string list"
  channel_id :: string
  message_read_count :: nat
  model_provider :: string
  last_processed_message_id :: string
  message_tracking :: "(string \<times> string) list"
  world :: 'w
  calls :: "call list"

section \<open>\<open>DatabaseHandler\<close> (\<open>connections/postgres.py\<close>)\<close>

text \<open>
  Both statements bind their two \<open>str\<close> parameters in \<open>cur.execute\<close>. A \<open>str\<close> that holds a
  NUL character cannot be bound: \<open>cur.execute\<close> raises \<open>ValueError\<close> before the statement
  reaches the server.
\<close>

definition has_nul :: "string \<Rightarrow> bool" where
  "has_nul str = (CHR 0x00 \<in> set str)"

text \<open>
  \<open>SELECT EXISTS(SELECT 1 FROM message_tracking WHERE channel_id = %s AND message_id = %s)\<close>.
\<close>

definition get_replied_messages ::
  "('w, 'r) env \<Rightarrow> string \<Rightarrow> string \<Rightarrow> 'w state \<Rightarrow> (exn + bool) \<times> 'w state" where
  "get_replied_messages env channel message_id s =
     (case connect env (world s) of
        (Some e, w) \<Rightarrow> (Inl e, s\<lparr>world := w\<rparr>)
      | (None, w) \<Rightarrow>
          (if has_nul channel \<or> has_nul message_id
           then (Inl ValueError, s\<lparr>world := w\<rparr>)
           else (Inr ((channel, message_id) \<in> set (message_tracking s)), s\<lparr>world := w\<rparr>)))"

text \<open>
  \<open>INSERT INTO message_tracking (channel_id, message_id) VALUES (%s, %s)\<close>, a plain insert
  into a table whose primary key is \<open>(channel_id, message_id)\<close>: a second row with the same
  key violates the key, the statement raises and the transaction is rolled back.
\<close>

definition add_replied_message ::
  "('w, 'r) env \<Rightarrow> string \<Rightarrow> string \<Rightarrow> 'w state \<Rightarrow> (exn + unit) \<times> 'w state" where
  "add_replied_message env channel message_id s =
     (case connect env (world s) of
        (Some e, w) \<Rightarrow> (Inl e, s\<lparr>world := w\<rparr>)
      | (None, w) \<Rightarrow>
          (if has_nul channel \<or> has_nul message_id
           then (Inl ValueError, s\<lparr>world := w\<rparr>)
           else if (channel, message_id) \<in> set (message_tracking s)
           then (Inl UniqueViolation, s\<lparr>world := w\<rparr>)
           else (Inr (),
                 s\<lparr>world := w,
                   message_tracking := message_tracking s @ [(channel, message_id)]\<rparr>)))"

text \<open>\<open>get_similar_content\<close>: whatever the \<open>try\<close> body raises is logged and becomes \<open>[]\<close>.\<close>

definition get_similar_content ::
  "('w, 'r) env \<Rightarrow> string \<Rightarrow> nat \<Rightarrow> 'w state \<Rightarrow> 'r list \<times> 'w state" where
  "get_similar_content env query limit s =
     (case similarity_search env query limit (world s) of
        (Inl e, w) \<Rightarrow> ([], s\<lparr>world := w\<rparr>)
      | (Inr rows, w) \<Rightarrow> (rows, s\<lparr>world := w\<rparr>))"

section \<open>\<open>DiscordAgent\<close> (\<open>agent.py\<close>)\<close>

definition reply_prompt :: "string \<Rightarrow> string \<Rightarrow> string" where
  "reply_prompt agent_name original_message =
     ''Generate a reply to this message: '' @ SQ @ original_message @ SQ @
     ''. You are '' @ agent_name @
     '', an agent with technical expertise, so your responses may include code snippets or technical explanations based on the query and your context. Discord chats use markdown, so you can take advantage of creating rich text responses that include code blocks, lists, and more. Due to limitations in the Discord response length, your <think></think> logs together with your response will need to be 2000 or fewer in length.''"

text \<open>The block appended to the system prompt when \<open>similar_content\<close> is not empty.\<close>

definition context_block :: "('r \<Rightarrow> string) \<Rightarrow> 'r list \<Rightarrow> string" where
  "context_block str similar_content =
     NL @ ''This is relevant context:'' @ NL @
     (NL @ ''Relevant context:'' @ NL) @
     concat (map (\<lambda>content. ''- '' @ str content @ NL) similar_content)"

definition system_prompt_of :: "('r \<Rightarrow> string) \<Rightarrow> string list \<Rightarrow> 'r list \<Rightarrow> string" where
  "system_prompt_of str bio_lines similar_content =
     (if similar_content \<noteq> []
      then join NL bio_lines @ context_block str similar_content
      else join NL bio_lines)"

definition generate_reply ::
  "('w, 'r) env \<Rightarrow> string \<Rightarrow> 'w state \<Rightarrow> (exn + string) \<times> 'w state" where
  "generate_reply env original_message s =
     (let prompt = reply_prompt (name s) original_message;
          (similar_content, s1) = get_similar_content env original_message 5 s;
          system_prompt = system_prompt_of (str_row env) (bio s) similar_content;
          (result, w) = generate_text_action env (model_provider s1) prompt system_prompt (world s1)
      in (result,
          s1\<lparr>world := w,
             calls := calls s1 @ [GenerateText (model_provider s1) prompt system_prompt]\<rparr>))"

definition read_messages :: "('w, 'r) env \<Rightarrow> 'w state \<Rightarrow> message list \<times> 'w state" where
  "read_messages env s =
     (let (result, w) =
            read_messages_action env (channel_id s) (message_read_count s) (world s);
          s1 = s\<lparr>world := w,
                 calls := calls s @ [ReadMessages (channel_id s) (message_read_count s)]\<rparr>
      in case result of
           Inl e \<Rightarrow> ([], s1)
         | Inr None \<Rightarrow> ([], s1)
         | Inr (Some messages) \<Rightarrow> (messages, s1))"

definition reply_to_message ::
  "('w, 'r) env \<Rightarrow> string \<Rightarrow> string \<Rightarrow> 'w state \<Rightarrow> bool \<times> 'w state" where
  "reply_to_message env message_id original_message s =
     (case generate_reply env original_message s of
        (Inl e, s1) \<Rightarrow> (False, s1)
      | (Inr reply, s1) \<Rightarrow>
          (let (result, w) =
                 reply_to_message_action env (channel_id s1) message_id reply (world s1);
               success = (case result of Inl e \<Rightarrow> False | Inr ok \<Rightarrow> ok)
           in (success,
               s1\<lparr>world := w,
                  calls := calls s1 @
                    [ReplyToMessage (channel_id s1) message_id reply success]\<rparr>)))"

text \<open>\<open>_get_latest_message_id\<close>: \<open>None\<close> when nothing was fetched or the lookup raised.\<close>

definition get_latest_message_id ::
  "('w, 'r) env \<Rightarrow> 'w state \<Rightarrow> string option \<times> 'w state" where
  "get_latest_message_id env s =
     (case read_messages env s of
        ([], s1) \<Rightarrow> (None, s1)
      | (msg # rest, s1) \<Rightarrow> (map_of msg ''id'', s1))"

text \<open>
  Lines 53 to 59 of \<open>__init__\<close>: the watermark is the latest message's id, or \<open>"0"\<close> when that
  is \<open>None\<close> or the empty string.
\<close>

definition init_last_processed ::
  "('w, 'r) env \<Rightarrow> 'w state \<Rightarrow> 'w state" where
  "init_last_processed env s =
     (case get_latest_message_id env s of
        (None, s1) \<Rightarrow> s1\<lparr>last_processed_message_id := ''0''\<rparr>
      | (Some latest, s1) \<Rightarrow>
          (if latest = [] then s1\<lparr>last_processed_message_id := ''0''\<rparr>
           else s1\<lparr>last_processed_message_id := latest\<rparr>))"

text \<open>The test that skips a message as bot-related (lines 165 to 168).\<close>

definition is_bot_related :: "string \<Rightarrow> string \<Rightarrow> bool" where
  "is_bot_related author msg_content =
     (str_in ''APP'' author \<or>
      str_in ''zerecall'' (lower author) \<or>
      str_in ''@zerecall'' (lower msg_content) \<or>
      list_ex (\<lambda>ref. str_in ref (lower msg_content)) [''@zerecall'', ''<@zerecall''])"

text \<open>
  The first loop of \<open>process_new_messages\<close>, over \<open>reversed(messages)\<close>, with the list
  \<open>new_messages\<close> built so far.
\<close>

fun collect_new :: "string \<Rightarrow> message list \<Rightarrow> message list \<Rightarrow> exn + message list" where
  "collect_new watermark [] new_messages = Inr new_messages"
| "collect_new watermark (msg # rest) new_messages =
     (case map_of msg ''id'' of
        None \<Rightarrow> Inl KeyError
      | Some msg_id \<Rightarrow>
          (let msg_content = msg_get msg ''message'' '''';
               author = msg_get msg ''author'' ''''
           in if is_bot_related author msg_content
              then collect_new watermark rest new_messages
              else if msg_id > watermark
              then collect_new watermark rest (new_messages @ [msg])
              else collect_new watermark rest new_messages))"

text \<open>
  The second loop, over \<open>new_messages\<close>. The result is the exception that ended the loop,
  if any, and the state reached.
\<close>

fun reply_loop ::
  "('w, 'r) env \<Rightarrow> message list \<Rightarrow> 'w state \<Rightarrow> exn option \<times> 'w state" where
  "reply_loop env [] s = (None, s)"
| "reply_loop env (msg # rest) s =
     (case map_of msg ''id'' of
        None \<Rightarrow> (Some KeyError, s)
      | Some msg_id \<Rightarrow>
          (case get_replied_messages env (channel_id s) msg_id s of
             (Inl e, s1) \<Rightarrow> (Some e, s1)
           | (Inr True, s1) \<Rightarrow> reply_loop env rest s1
           | (Inr False, s1) \<Rightarrow>
               (case reply_to_message env msg_id (msg_get msg ''message'' '''') s1 of
                  (True, s2) \<Rightarrow>
                    (case add_replied_message env (channel_id s2) msg_id s2 of
                       (Inl e, s3) \<Rightarrow> (Some e, s3)
                     | (Inr u, s3) \<Rightarrow>
                         reply_loop env rest (s3\<lparr>last_processed_message_id := msg_id\<rparr>))
                | (False, s2) \<Rightarrow> reply_loop env rest s2)))"

definition process_new_messages ::
  "('w, 'r) env \<Rightarrow> 'w state \<Rightarrow> exn option \<times> 'w state" where
  "process_new_messages env s =
     (if last_processed_message_id s = [] then (None, s)
      else case read_messages env s of
             ([], s1) \<Rightarrow> (None, s1)
           | (messages, s1) \<Rightarrow>
               (case collect_new (last_processed_message_id s1) (rev messages) [] of
                  Inl e \<Rightarrow> (Some e, s1)
                | Inr new_messages \<Rightarrow> reply_loop env new_messages s1))"

text \<open>
  \<open>loop\<close>: each iteration runs one pass; an exception of the pass is caught and logged, and
  the loop goes on. \<open>ticks env n\<close> is the state after \<open>n\<close> iterations.
\<close>

definition tick :: "('w, 'r) env \<Rightarrow> 'w state \<Rightarrow> 'w state" where
  "tick env s = snd (process_new_messages env s)"

fun ticks :: "('w, 'r) env \<Rightarrow> nat \<Rightarrow> 'w state \<Rightarrow> 'w state" where
  "ticks env 0 s = s"
| "ticks env (Suc n) s = ticks env n (tick env s)"

section \<open>\<open>TwitterConnection\<close> (\<open>connections/twitter_connection.py\<close>)\<close>

text \<open>
  Keyword arguments are a dict from parameter name to value. The values are \<open>None\<close>,
  booleans, integers, strings (one \<open>char\<close> for each character, so that \<open>len\<close> is \<open>length\<close>)
  and dicts of these.
\<close>

datatype pyval =
    PNone
  | PBool bool
  | PInt int
  | PStr string
  | PDict "(string \<times> pyval) list"

type_synonym kwargs = "(string \<times> pyval) list"

text \<open>\<open>not v\<close> is \<open>\<not> truthy v\<close>; \<open>len(v)\<close> raises \<open>TypeError\<close> on a value that has no length.\<close>

fun truthy :: "pyval \<Rightarrow> bool" where
  "truthy PNone = False"
| "truthy (PBool b) = b"
| "truthy (PInt n) = (n \<noteq> 0)"
| "truthy (PStr s) = (s \<noteq> [])"
| "truthy (PDict d) = (d \<noteq> [])"

fun len :: "pyval \<Rightarrow> exn + nat" where
  "len (PStr s) = Inr (length s)"
| "len (PDict d) = Inr (length d)"
| "len v = Inl TypeError"

text \<open>
  \<open>min(count, 100)\<close>: the first argument unless the second is smaller; a boolean counts as
  0 or 1; comparing \<open>None\<close>, a string or a dict with an integer raises \<open>TypeError\<close>.
\<close>

fun min_100 :: "pyval \<Rightarrow> exn + pyval" where
  "min_100 (PInt n) = Inr (if 100 < n then PInt 100 else PInt n)"
| "min_100 (PBool b) = Inr (PBool b)"
| "min_100 v = Inl TypeError"

text \<open>
  A request handed to the OAuth session (\<open>getattr(oauth, method.lower())(full_url, **kwargs)\<close>)
  and what comes back. The decoded body of a response is of an abstract type \<open>'j\<close>;
  \<open>decoded\<close> is \<open>response.json()\<close>, which may raise.
\<close>

datatype payload =
    Params "(string \<times> pyval) list"
  | Json "(string \<times> pyval) list"

record request =
  http_method :: string
  url :: string
  sent :: payload

record 'j response =
  status_code :: int
  decoded :: "exn + 'j"

text \<open>
  The network is a parameter: \<open>http session request\<close> answers or raises, from the hidden
  state \<open>'w\<close> of the outside world. What \<open>read_timeline\<close> (lines 353 to 378) and
  \<open>get_latest_tweets\<close> (line 398) compute from the decoded body once the request has
  returned is a function of that body alone; with the body abstract, the two computations
  are the parameters \<open>timeline_tweets\<close> and \<open>data_tweets\<close>.
\<close>

record ('w, 'j) twitter_env =
  http :: "(string \<times> string) list \<Rightarrow> request \<Rightarrow> 'w \<Rightarrow> (exn + 'j response) \<times> 'w"
  timeline_tweets :: "'j \<Rightarrow> exn + 'j"
  data_tweets :: "'j \<Rightarrow> exn + 'j"

text \<open>
  The connection: the cached \<open>_oauth_session\<close> (the credentials it was built from), the
  process environment read by \<open>os.getenv\<close>, the hidden state of the network and the
  requests sent so far.
\<close>

record 'w twitter =
  oauth_session :: "(string \<times> string) list option"
  environ :: "(string \<times> string) list"
  network :: 'w
  requests :: "request list"

definition required_vars :: "string list" where
  "required_vars =
     [''TWITTER_CONSUMER_KEY'', ''TWITTER_CONSUMER_SECRET'', ''TWITTER_ACCESS_TOKEN'',
      ''TWITTER_ACCESS_TOKEN_SECRET'', ''TWITTER_USER_ID'']"

text \<open>
  \<open>_get_credentials\<close>: a variable that is unset or empty is missing, and any missing
  variable raises \<open>TwitterConfigurationError\<close>.
\<close>

definition get_credentials :: "'w twitter \<Rightarrow> exn + (string \<times> string) list" where
  "get_credentials t =
     (let credentials = map (\<lambda>env_var. (env_var, msg_get (environ t) env_var [])) required_vars;
          missing = filter (\<lambda>(env_var, v). v = []) credentials
      in if missing \<noteq> [] then Inl TwitterConfigurationError else Inr credentials)"

definition get_oauth :: "'w twitter \<Rightarrow> (exn + (string \<times> string) list) \<times> 'w twitter" where
  "get_oauth t =
     (case oauth_session t of
        Some session \<Rightarrow> (Inr session, t)
      | None \<Rightarrow>
          (case get_credentials t of
             Inl e \<Rightarrow> (Inl e, t)
           | Inr credentials \<Rightarrow>
               (let session = filter (\<lambda>(env_var, v). env_var \<noteq> ''TWITTER_USER_ID'') credentials
                in (Inr session, t\<lparr>oauth_session := Some session\<rparr>))))"

text \<open>
  \<open>_make_request\<close>: whatever is raised inside the \<open>try\<close> leaves as \<open>TwitterAPIError\<close>. The
  request is sent only once a session is at hand.
\<close>

definition make_request ::
  "('w, 'j) twitter_env \<Rightarrow> string \<Rightarrow> string \<Rightarrow> payload \<Rightarrow> 'w twitter \<Rightarrow> (exn + 'j) \<times> 'w twitter"
  where
  "make_request env method endpoint body t =
     (case get_oauth t of
        (Inl e, t1) \<Rightarrow> (Inl TwitterAPIError, t1)
      | (Inr oauth, t1) \<Rightarrow>
          (let full_url = ''https://api.twitter.com/2/'' @ dropWhile (\<lambda>c. c = CHR ''/'') endpoint;
               req = \<lparr>http_method = lower method, url = full_url, sent = body\<rparr>;
               (answer, w) = http env oauth req (network t1);
               t2 = t1\<lparr>network := w, requests := requests t1 @ [req]\<rparr>;
               expected_status = (if lower method = ''post'' then 201 else 200)
           in case answer of
                Inl e \<Rightarrow> (Inl TwitterAPIError, t2)
              | Inr response \<Rightarrow>
                  (if status_code response \<noteq> expected_status then (Inl TwitterAPIError, t2)
                   else case decoded response of
                          Inl e \<Rightarrow> (Inl TwitterAPIError, t2)
                        | Inr j \<Rightarrow> (Inr j, t2))))"

text \<open>\<open>_validate_tweet_text\<close>.\<close>

definition validate_tweet_text :: "pyval \<Rightarrow> exn + unit" where
  "validate_tweet_text text =
     (if \<not> truthy text then Inl ValueError
      else case len text of
             Inl e \<Rightarrow> Inl e
           | Inr n \<Rightarrow> if n > 280 then Inl ValueError else Inr ())"

text \<open>
  The handlers, each applied to the keyword arguments as \<open>func(**kwargs)\<close> does: a
  parameter without a default that is absent from the arguments is a \<open>TypeError\<close> at the
  call, before the body runs; a parameter with a default takes it; further keys are
  swallowed by \<open>**kwargs\<close>.
\<close>

definition user_id_of :: "(string \<times> string) list \<Rightarrow> string" where
  "user_id_of credentials = msg_get credentials ''TWITTER_USER_ID'' []"

definition read_timeline ::
  "('w, 'j) twitter_env \<Rightarrow> kwargs \<Rightarrow> 'w twitter \<Rightarrow> (exn + 'j) \<times> 'w twitter" where
  "read_timeline env kw t =
     (let count = (case map_of kw ''count'' of None \<Rightarrow> PInt 10 | Some c \<Rightarrow> c)
      in case get_credentials t of
           Inl e \<Rightarrow> (Inl e, t)
         | Inr credentials \<Rightarrow>
             (let params = [(''tweet.fields'', PStr ''created_at,author_id,attachments''),
                            (''expansions'', PStr ''author_id''),
                            (''user.fields'', PStr ''name,username''),
                            (''max_results'', count)]
              in case make_request env ''get''
                        (''users/'' @ user_id_of credentials @ ''/timelines/reverse_chronological'')
                        (Params params) t of
                   (Inl e, t1) \<Rightarrow> (Inl e, t1)
                 | (Inr response, t1) \<Rightarrow> (timeline_tweets env response, t1)))"

definition get_latest_tweets ::
  "('w, 'j) twitter_env \<Rightarrow> kwargs \<Rightarrow> 'w twitter \<Rightarrow> (exn + 'j) \<times> 'w twitter" where
  "get_latest_tweets env kw t =
     (case map_of kw ''username'' of
        None \<Rightarrow> (Inl TypeError, t)
      | Some username \<Rightarrow>
          (let count = (case map_of kw ''count'' of None \<Rightarrow> PInt 10 | Some c \<Rightarrow> c)
           in case get_credentials t of
                Inl e \<Rightarrow> (Inl e, t)
              | Inr credentials \<Rightarrow>
                  (case min_100 count of
                     Inl e \<Rightarrow> (Inl e, t)
                   | Inr max_results \<Rightarrow>
                       (let params = [(''tweet.fields'', PStr ''created_at,public_metrics,text''),
                                      (''max_results'', max_results),
                                      (''exclude'', PStr ''retweets,replies'')]
                        in case make_request env ''get''
                                  (''users/'' @ user_id_of credentials @ ''/tweets'')
                                  (Params params) t of
                             (Inl e, t1) \<Rightarrow> (Inl e, t1)
                           | (Inr response, t1) \<Rightarrow> (data_tweets env response, t1)))))"

definition post_tweet ::
  "('w, 'j) twitter_env \<Rightarrow> kwargs \<Rightarrow> 'w twitter \<Rightarrow> (exn + 'j) \<times> 'w twitter" where
  "post_tweet env kw t =
     (case map_of kw ''message'' of
        None \<Rightarrow> (Inl TypeError, t)
      | Some message \<Rightarrow>
          (case validate_tweet_text message of
             Inl e \<Rightarrow> (Inl e, t)
           | Inr u \<Rightarrow> make_request env ''post'' ''tweets'' (Json [(''text'', message)]) t))"

definition reply_to_tweet ::
  "('w, 'j) twitter_env \<Rightarrow> kwargs \<Rightarrow> 'w twitter \<Rightarrow> (exn + 'j) \<times> 'w twitter" where
  "reply_to_tweet env kw t =
     (case map_of kw ''tweet_id'' of
        None \<Rightarrow> (Inl TypeError, t)
      | Some tweet_id \<Rightarrow>
          (case map_of kw ''message'' of
             None \<Rightarrow> (Inl TypeError, t)
           | Some message \<Rightarrow>
               (case validate_tweet_text message of
                  Inl e \<Rightarrow> (Inl e, t)
                | Inr u \<Rightarrow>
                    make_request env ''post'' ''tweets''
                      (Json [(''text'', message),
                             (''reply'', PDict [(''in_reply_to_tweet_id'', tweet_id)])]) t)))"

definition like_tweet ::
  "('w, 'j) twitter_env \<Rightarrow> kwargs \<Rightarrow> 'w twitter \<Rightarrow> (exn + 'j) \<times> 'w twitter" where
  "like_tweet env kw t =
     (case map_of kw ''tweet_id'' of
        None \<Rightarrow> (Inl TypeError, t)
      | Some tweet_id \<Rightarrow>
          (case get_credentials t of
             Inl e \<Rightarrow> (Inl e, t)
           | Inr credentials \<Rightarrow>
               make_request env ''post'' (''users/'' @ user_id_of credentials @ ''/likes'')
                 (Json [(''tweet_id'', tweet_id)]) t))"

text \<open>
  \<open>self.actions\<close>: for each declared action name, the declared \<open>args\<close> (parameter name and
  type name) and the bound \<open>func\<close>.
\<close>

definition actions ::
  "('w, 'j) twitter_env \<Rightarrow>
   (string \<times> (string \<times> string) list \<times> (kwargs \<Rightarrow> 'w twitter \<Rightarrow> (exn + 'j) \<times> 'w twitter)) list"
  where
  "actions env =
     [(''get-latest-tweets'', [(''username'', ''str''), (''count'', ''int'')], get_latest_tweets env),
      (''post-tweet'', [(''message'', ''str'')], post_tweet env),
      (''read-timeline'', [(''count'', ''int'')], read_timeline env),
      (''like-tweet'', [(''tweet_id'', ''str'')], like_tweet env),
      (''reply-to-tweet'', [(''tweet_id'', ''str''), (''message'', ''str'')], reply_to_tweet env)]"

text \<open>\<open>perform_action\<close>: a declared action runs its handler, any other name raises.\<close>

definition perform_action ::
  "('w, 'j) twitter_env \<Rightarrow> string \<Rightarrow> kwargs \<Rightarrow> 'w twitter \<Rightarrow> (exn + 'j) \<times> 'w twitter" where
  "perform_action env action_name kw t =
     (case map_of (actions env) action_name of
        Some (args, func) \<Rightarrow> func kw t
      | None \<Rightarrow> (Inl TwitterConnectionError, t))"

section \<open>Notions used to state the claims\<close>

text \<open>
  The self-mention tokens as the specification lists them: the agent's handle, its
  \<open>@\<close>-prefixed form and its reply-reference form; and the specification's filter: the
  author marks the agent's own account, or the author or the body contains one of the
  tokens, case-insensitively.
\<close>

definition spec_self_mention_tokens :: "string list" where
  "spec_self_mention_tokens = [''zerecall'', ''@zerecall'', ''<@zerecall'']"

definition spec_self_filter :: "string \<Rightarrow> string \<Rightarrow> bool" where
  "spec_self_filter author body =
     (str_in ''APP'' author \<or>
      list_ex (\<lambda>token. str_in token (lower author) \<or> str_in token (lower body))
        spec_self_mention_tokens)"

text \<open>
  The specification's argument check: every field of the declared schema is present and
  its value has the declared primitive type (\<open>type(v).__name__\<close>).
\<close>

fun type_name :: "pyval \<Rightarrow> string" where
  "type_name PNone = ''NoneType''"
| "type_name (PBool b) = ''bool''"
| "type_name (PInt n) = ''int''"
| "type_name (PStr s) = ''str''"
| "type_name (PDict d) = ''dict''"

definition spec_satisfies_schema :: "(string \<times> string) list \<Rightarrow> kwargs \<Rightarrow> bool" where
  "spec_satisfies_schema schema kw =
     list_all (\<lambda>(field, ty). case map_of kw field of None \<Rightarrow> False | Some v \<Rightarrow> type_name v = ty)
       schema"


section \<open>Concrete inputs\<close>

definition mk_msg :: "string \<Rightarrow> string \<Rightarrow> string \<Rightarrow> message" where
  "mk_msg msg_id author body = [(''id'', msg_id), (''author'', author), (''message'', body)]"

text \<open>
  An outside world with no hidden state: the feed answers \<open>fetched\<close>, a reply is sent
  successfully unless the message id is in \<open>failing\<close>, the model answers \<open>"ok"\<close>, the
  similarity search answers \<open>found\<close>, and the database is reachable.
\<close>

definition scripted_env ::
  "exn + message list option \<Rightarrow> string list \<Rightarrow> exn + string list \<Rightarrow> (unit, string) env" where
  "scripted_env fetched failing found =
     \<lparr>read_messages_action = (\<lambda>channel count w. (fetched, w)),
      reply_to_message_action = (\<lambda>channel msg_id reply w. (Inr (msg_id \<notin> set failing), w)),
      generate_text_action = (\<lambda>provider prompt system_prompt w. (Inr ''ok'', w)),
      similarity_search = (\<lambda>query limit w. (found, w)),
      str_row = (\<lambda>row. row),
      connect = (\<lambda>w. (None, w))\<rparr>"

definition agent0 :: "string \<Rightarrow> (string \<times> string) list \<Rightarrow> unit state" where
  "agent0 watermark rows =
     \<lparr>name = ''zerecall'', bio = [''You are helpful.'', ''You know code.''],
      channel_id = ''chan'', message_read_count = 10, model_provider = ''llm'',
      last_processed_message_id = watermark, message_tracking = rows,
      world = (), calls = []\<rparr>"

text \<open>
  A network that answers every request with the given status and the decoded body \<open>0\<close>,
  and a connection whose environment holds all five credentials.
\<close>

definition scripted_twitter_env :: "int \<Rightarrow> (unit, nat) twitter_env" where
  "scripted_twitter_env status =
     \<lparr>http = (\<lambda>session req w. (Inr \<lparr>status_code = status, decoded = Inr 0\<rparr>, w)),
      timeline_tweets = (\<lambda>j. Inr j),
      data_tweets = (\<lambda>j. Inr j)\<rparr>"

definition twitter0 :: "unit twitter" where
  "twitter0 =
     \<lparr>oauth_session = None,
      environ = [(''TWITTER_CONSUMER_KEY'', ''ck''), (''TWITTER_CONSUMER_SECRET'', ''cs''),
                 (''TWITTER_ACCESS_TOKEN'', ''at''), (''TWITTER_ACCESS_TOKEN_SECRET'', ''ats''),
                 (''TWITTER_USER_ID'', ''42'')],
      network = (), requests = []\<rparr>"



section \<open>Notions used in the proofs\<close>

text \<open>
  The (channel, message id) pairs of the replies in a list of calls: all of them, and the
  ones that reported success.
\<close>

fun replies :: "call list \<Rightarrow> (string \<times> string) list" where
  "replies [] = []"
| "replies (ReplyToMessage c i r ok # cs) = (c, i) # replies cs"
| "replies (x # cs) = replies cs"

fun confirmed :: "call list \<Rightarrow> (string \<times> string) list" where
  "confirmed [] = []"
| "confirmed (ReplyToMessage c i r ok # cs) = (if ok then (c, i) # confirmed cs else confirmed cs)"
| "confirmed (x # cs) = confirmed cs"

text \<open>
  What every step of a pass preserves between a state and a later one: the channel, the
  rows already in the table, the calls already made.
\<close>

definition frame :: "'w state \<Rightarrow> 'w state \<Rightarrow> bool" where
  "frame s s' =
     (channel_id s' = channel_id s \<and>
      set (message_tracking s) \<subseteq> set (message_tracking s') \<and>
      (\<exists>new_calls. calls s' = calls s @ new_calls))"

definition new_calls_of :: "'w state \<Rightarrow> 'w state \<Rightarrow> call list" where
  "new_calls_of s s' = drop (length (calls s)) (calls s')"

text \<open>
  The invariant of the reply loop over the candidates \<open>new\<close>, between the state \<open>s\<close> it
  starts from and the state \<open>s'\<close> it reaches.
\<close>

definition pass_inv :: "message list \<Rightarrow> 'w state \<Rightarrow> 'w state \<Rightarrow> bool" where
  "pass_inv new s s' =
     (set (replies (new_calls_of s s')) \<inter> set (message_tracking s) = {} \<and>
      set (message_tracking s') \<subseteq> set (message_tracking s) \<union> set (confirmed (new_calls_of s s')) \<and>
      (\<forall>(c, i) \<in> set (replies (new_calls_of s s')).
         c = channel_id s \<and> (\<exists>m \<in> set new. map_of m ''id'' = Some i)) \<and>
      (last_processed_message_id s' = last_processed_message_id s \<or>
       (\<exists>m \<in> set new. map_of m ''id'' = Some (last_processed_message_id s')) \<and>
       (channel_id s, last_processed_message_id s') \<in> set (message_tracking s') \<and>
       (channel_id s, last_processed_message_id s') \<in> set (confirmed (new_calls_of s s'))))"

section \<open>Facts about the operations\<close>

text \<open>\<open>str_in\<close> is the contiguous-sublist relation of the library.\<close>

lemma str_in_sublist: "str_in sub s = sublist sub s"
  by (induction s) (auto simp: sublist_Cons_right)


lemma get_replied_messages_keeps:
  assumes "get_replied_messages env c m s = (r, s1)"
  shows "last_processed_message_id s1 = last_processed_message_id s"
    and "message_tracking s1 = message_tracking s"
    and "channel_id s1 = channel_id s"
    and "calls s1 = calls s"
    and "r = Inr b \<Longrightarrow> b = ((c, m) \<in> set (message_tracking s))"
  using assms by (auto simp: get_replied_messages_def split: prod.splits option.splits if_splits)

lemma add_replied_message_keeps:
  assumes "add_replied_message env c m s = (r, s1)"
  shows "last_processed_message_id s1 = last_processed_message_id s"
    and "channel_id s1 = channel_id s"
    and "calls s1 = calls s"
    and "r = Inr u \<Longrightarrow> message_tracking s1 = message_tracking s @ [(c, m)]"
    and "r = Inl e \<Longrightarrow> message_tracking s1 = message_tracking s"
  using assms by (auto simp: add_replied_message_def split: prod.splits option.splits if_splits)

lemma get_similar_content_keeps:
  assumes "get_similar_content env q l s = (rows, s1)"
  shows "last_processed_message_id s1 = last_processed_message_id s"
    and "message_tracking s1 = message_tracking s"
    and "channel_id s1 = channel_id s"
    and "calls s1 = calls s"
    and "name s1 = name s" and "bio s1 = bio s" and "model_provider s1 = model_provider s"
  using assms by (auto simp: get_similar_content_def split: prod.splits sum.splits)

lemma generate_reply_keeps:
  assumes "generate_reply env b s = (r, s1)"
  shows "last_processed_message_id s1 = last_processed_message_id s"
    and "message_tracking s1 = message_tracking s"
    and "channel_id s1 = channel_id s"
    and "\<exists>p sp. calls s1 = calls s @ [GenerateText (model_provider s) p sp]"
  using assms
  by (auto simp: generate_reply_def Let_def split: prod.splits dest: get_similar_content_keeps)

lemma reply_to_message_keeps:
  assumes "reply_to_message env i b s = (ok, s2)"
  shows "last_processed_message_id s2 = last_processed_message_id s"
    and "message_tracking s2 = message_tracking s"
    and "channel_id s2 = channel_id s"
    and "\<exists>p sp. calls s2 = calls s @ [GenerateText (model_provider s) p sp] \<and> \<not> ok \<or>
          (\<exists>r. calls s2 = calls s @ [GenerateText (model_provider s) p sp,
                                      ReplyToMessage (channel_id s) i r ok])"
  using assms
  by (auto simp: reply_to_message_def Let_def split: prod.splits sum.splits
      dest: generate_reply_keeps)

lemma collect_new_eq:
  assumes "\<forall>m \<in> set msgs. map_of m ''id'' \<noteq> None"
  shows "collect_new w msgs acc =
         Inr (acc @ filter (\<lambda>m. \<not> is_bot_related (msg_get m ''author'' []) (msg_get m ''message'' [])
                                   \<and> msg_get m ''id'' [] > w) msgs)"
  using assms
  by (induction msgs arbitrary: acc) (auto simp: msg_get_def Let_def)

lemma collect_new_Inr_ids:
  assumes "collect_new w msgs acc = Inr new"
  shows "\<forall>m \<in> set msgs. map_of m ''id'' \<noteq> None"
  using assms
  by (induction msgs arbitrary: acc) (auto simp: Let_def split: option.splits if_splits)

lemma reply_loop_ConsE:
  assumes "reply_loop env (m # rest) s = (r, s')"
  obtains
    (no_id) "map_of m ''id'' = None" "r = Some KeyError" "s' = s"
  | (check_raised) i e where "map_of m ''id'' = Some i"
      "get_replied_messages env (channel_id s) i s = (Inl e, s')" "r = Some e"
  | (already) i s1 where "map_of m ''id'' = Some i"
      "get_replied_messages env (channel_id s) i s = (Inr True, s1)"
      "reply_loop env rest s1 = (r, s')"
  | (send_failed) i s1 s2 where "map_of m ''id'' = Some i"
      "get_replied_messages env (channel_id s) i s = (Inr False, s1)"
      "reply_to_message env i (msg_get m ''message'' []) s1 = (False, s2)"
      "reply_loop env rest s2 = (r, s')"
  | (record_raised) i s1 s2 e where "map_of m ''id'' = Some i"
      "get_replied_messages env (channel_id s) i s = (Inr False, s1)"
      "reply_to_message env i (msg_get m ''message'' []) s1 = (True, s2)"
      "add_replied_message env (channel_id s2) i s2 = (Inl e, s')" "r = Some e"
  | (replied) i s1 s2 s3 where "map_of m ''id'' = Some i"
      "get_replied_messages env (channel_id s) i s = (Inr False, s1)"
      "reply_to_message env i (msg_get m ''message'' []) s1 = (True, s2)"
      "add_replied_message env (channel_id s2) i s2 = (Inr (), s3)"
      "reply_loop env rest (s3\<lparr>last_processed_message_id := i\<rparr>) = (r, s')"
proof (cases "map_of m ''id''")
  case None
  with assms no_id show ?thesis by simp
next
  case (Some i)
  obtain c s1 where g: "get_replied_messages env (channel_id s) i s = (c, s1)"
    by (cases "get_replied_messages env (channel_id s) i s")
  show ?thesis
  proof (cases c)
    case (Inl e)
    with assms Some g check_raised show ?thesis by simp
  next
    case (Inr b)
    show ?thesis
    proof (cases b)
      case True
      with assms Some g Inr already show ?thesis by simp
    next
      case False
      obtain ok s2 where rp: "reply_to_message env i (msg_get m ''message'' []) s1 = (ok, s2)"
        by (cases "reply_to_message env i (msg_get m ''message'' []) s1")
      show ?thesis
      proof (cases ok)
        case nok: False
        with assms Some g Inr False rp send_failed show ?thesis by simp
      next
        case ok: True
        obtain a s3 where ad: "add_replied_message env (channel_id s2) i s2 = (a, s3)"
          by (cases "add_replied_message env (channel_id s2) i s2")
        show ?thesis
        proof (cases a)
          case (Inl e)
          with assms Some g Inr False rp ok ad record_raised show ?thesis by simp
        next
          case (Inr u)
          with assms Some g \<open>c = Inr b\<close> False rp ok ad replied show ?thesis by simp
        qed
      qed
    qed
  qed
qed

lemma replies_append: "replies (xs @ ys) = replies xs @ replies ys"
  by (induction xs rule: replies.induct) auto

lemma confirmed_append: "confirmed (xs @ ys) = confirmed xs @ confirmed ys"
  by (induction xs rule: confirmed.induct) auto

lemma replies_iff: "(c, i) \<in> set (replies cs) \<longleftrightarrow> (\<exists>r ok. ReplyToMessage c i r ok \<in> set cs)"
  by (induction cs rule: replies.induct) auto

lemma confirmed_iff: "(c, i) \<in> set (confirmed cs) \<longleftrightarrow> (\<exists>r. ReplyToMessage c i r True \<in> set cs)"
  by (induction cs rule: confirmed.induct) auto

lemma frame_refl: "frame s s"
  by (simp add: frame_def)

lemma frame_trans: "frame a b \<Longrightarrow> frame b c \<Longrightarrow> frame a c"
  by (auto simp: frame_def)

lemma frame_get: "get_replied_messages env c i s = (x, s1) \<Longrightarrow> frame s s1"
  by (simp add: frame_def get_replied_messages_keeps)

lemma frame_reply: "reply_to_message env i b s = (ok, s2) \<Longrightarrow> frame s s2"
  using reply_to_message_keeps(4)[of env i b s ok s2]
  by (auto simp add: frame_def reply_to_message_keeps(1,2,3))

lemma frame_add: "add_replied_message env c i s = (x, s3) \<Longrightarrow> frame s s3"
  by (cases x) (auto simp add: frame_def add_replied_message_keeps)

lemma frame_mark: "frame s (s\<lparr>last_processed_message_id := i\<rparr>)"
  by (simp add: frame_def)

lemma reply_loop_frame:
  assumes "reply_loop env new s = (r, s')"
  shows "frame s s'"
  using assms
proof (induction new arbitrary: s)
  case Nil
  then show ?case by (simp add: frame_refl)
next
  case (Cons m rest)
  from Cons.prems show ?case
  proof (cases rule: reply_loop_ConsE)
    case no_id
    then show ?thesis by (simp add: frame_refl)
  next
    case (check_raised i e)
    then show ?thesis by (simp add: frame_get)
  next
    case (already i s1)
    from frame_get[OF already(2)] Cons.IH[OF already(3)] show ?thesis
      by (rule frame_trans)
  next
    case (send_failed i s1 s2)
    from frame_get[OF send_failed(2)] frame_reply[OF send_failed(3)] Cons.IH[OF send_failed(4)]
    show ?thesis by (blast intro: frame_trans)
  next
    case (record_raised i s1 s2 e)
    from frame_get[OF record_raised(2)] frame_reply[OF record_raised(3)]
      frame_add[OF record_raised(4)]
    show ?thesis by (blast intro: frame_trans)
  next
    case (replied i s1 s2 s3)
    from frame_get[OF replied(2)] frame_reply[OF replied(3)] frame_add[OF replied(4)]
      frame_mark[of s3 i] Cons.IH[OF replied(5)]
    show ?thesis by (blast intro: frame_trans)
  qed
qed

lemma new_calls_refl: "new_calls_of s s = []"
  by (simp add: new_calls_of_def)

lemma new_calls_trans:
  assumes "frame a b" and "frame b c"
  shows "new_calls_of a c = new_calls_of a b @ new_calls_of b c"
proof -
  from assms obtain x y where "calls b = calls a @ x" "calls c = calls b @ y"
    by (auto simp: frame_def)
  then show ?thesis
    by (simp add: new_calls_of_def)
qed

lemma frame_calls: "frame s s' \<Longrightarrow> calls s' = calls s @ new_calls_of s s'"
  by (auto simp: frame_def new_calls_of_def)

lemma new_calls_get: "get_replied_messages env c i s = (x, s1) \<Longrightarrow> new_calls_of s s1 = []"
  by (simp add: new_calls_of_def get_replied_messages_keeps)

lemma new_calls_add: "add_replied_message env c i s = (x, s1) \<Longrightarrow> new_calls_of s s1 = []"
  by (simp add: new_calls_of_def add_replied_message_keeps)

lemma new_calls_mark: "new_calls_of s (s\<lparr>last_processed_message_id := i\<rparr>) = []"
  by (simp add: new_calls_of_def)

lemma new_calls_reply:
  assumes "reply_to_message env i b s = (ok, s2)"
  shows "set (replies (new_calls_of s s2)) \<subseteq> {(channel_id s, i)}"
    and "confirmed (new_calls_of s s2) = (if ok then [(channel_id s, i)] else [])"
    and "ok \<Longrightarrow> replies (new_calls_of s s2) = [(channel_id s, i)]"
  using reply_to_message_keeps(4)[OF assms]
  by (auto simp: new_calls_of_def)

lemma pass_inv_refl: "pass_inv new s s"
  by (simp add: pass_inv_def new_calls_refl)

lemma pass_inv_step:
  assumes f1: "frame s s2" and f2: "frame s2 s'"
    and one: "set (replies (new_calls_of s s2)) \<subseteq> {(channel_id s, i)}"
    and fresh: "replies (new_calls_of s s2) \<noteq> [] \<Longrightarrow> (channel_id s, i) \<notin> set (message_tracking s)"
    and id: "map_of m ''id'' = Some i"
    and rows: "set (message_tracking s2) \<subseteq>
               set (message_tracking s) \<union> set (confirmed (new_calls_of s s2))"
    and mark: "last_processed_message_id s2 = last_processed_message_id s \<or>
               last_processed_message_id s2 = i \<and>
               (channel_id s, i) \<in> set (message_tracking s2) \<and>
               (channel_id s, i) \<in> set (confirmed (new_calls_of s s2))"
    and rest: "pass_inv rest s2 s'"
  shows "pass_inv (m # rest) s s'"
proof -
  have iss: "new_calls_of s s' = new_calls_of s s2 @ new_calls_of s2 s'"
    by (rule new_calls_trans[OF f1 f2])
  have ch: "channel_id s2 = channel_id s"
    using f1 by (simp add: frame_def)
  have sub1: "set (message_tracking s) \<subseteq> set (message_tracking s2)"
    using f1 by (simp add: frame_def)
  have sub2: "set (message_tracking s2) \<subseteq> set (message_tracking s')"
    using f2 by (simp add: frame_def)
  have a: "set (replies (new_calls_of s s')) \<inter> set (message_tracking s) = {}"
  proof -
    have "set (replies (new_calls_of s s2)) \<inter> set (message_tracking s) = {}"
      using one fresh by (cases "replies (new_calls_of s s2)") auto
    moreover have "set (replies (new_calls_of s2 s')) \<inter> set (message_tracking s) = {}"
      using rest sub1 unfolding pass_inv_def by blast
    ultimately show ?thesis unfolding iss replies_append by auto
  qed
  have b: "set (message_tracking s') \<subseteq>
           set (message_tracking s) \<union> set (confirmed (new_calls_of s s'))"
    using rest rows unfolding pass_inv_def iss confirmed_append by auto
  have c: "\<forall>(c, j) \<in> set (replies (new_calls_of s s')).
             c = channel_id s \<and> (\<exists>m' \<in> set (m # rest). map_of m' ''id'' = Some j)"
    using rest one id ch unfolding pass_inv_def iss replies_append by auto
  have d: "last_processed_message_id s' = last_processed_message_id s \<or>
       (\<exists>m' \<in> set (m # rest). map_of m' ''id'' = Some (last_processed_message_id s')) \<and>
       (channel_id s, last_processed_message_id s') \<in> set (message_tracking s') \<and>
       (channel_id s, last_processed_message_id s') \<in> set (confirmed (new_calls_of s s'))"
  proof -
    from rest have "last_processed_message_id s' = last_processed_message_id s2 \<or>
       (\<exists>m' \<in> set rest. map_of m' ''id'' = Some (last_processed_message_id s')) \<and>
       (channel_id s, last_processed_message_id s') \<in> set (message_tracking s') \<and>
       (channel_id s, last_processed_message_id s') \<in> set (confirmed (new_calls_of s2 s'))"
      unfolding pass_inv_def ch by blast
    then show ?thesis
    proof
      assume eq: "last_processed_message_id s' = last_processed_message_id s2"
      from mark show ?thesis
      proof
        assume "last_processed_message_id s2 = last_processed_message_id s"
        with eq show ?thesis by simp
      next
        assume "last_processed_message_id s2 = i \<and>
               (channel_id s, i) \<in> set (message_tracking s2) \<and>
               (channel_id s, i) \<in> set (confirmed (new_calls_of s s2))"
        with eq id sub2 show ?thesis unfolding iss confirmed_append by auto
      qed
    next
      assume "(\<exists>m' \<in> set rest. map_of m' ''id'' = Some (last_processed_message_id s')) \<and>
       (channel_id s, last_processed_message_id s') \<in> set (message_tracking s') \<and>
       (channel_id s, last_processed_message_id s') \<in> set (confirmed (new_calls_of s2 s'))"
      then show ?thesis unfolding iss confirmed_append by auto
    qed
  qed
  from a b c d show ?thesis unfolding pass_inv_def by blast
qed

lemma reply_loop_pass_inv:
  assumes "reply_loop env new s = (r, s')"
  shows "pass_inv new s s'"
  using assms
proof (induction new arbitrary: s)
  case Nil
  then show ?case by (simp add: pass_inv_refl)
next
  case (Cons m rest)
  from Cons.prems show ?case
  proof (cases rule: reply_loop_ConsE)
    case no_id
    then show ?thesis by (simp add: pass_inv_def new_calls_refl)
  next
    case (check_raised i e)
    show ?thesis
      using frame_get[OF check_raised(2)] frame_refl[of s'] check_raised(1)
        pass_inv_refl[of rest s'] new_calls_get[OF check_raised(2)]
        get_replied_messages_keeps(1,2)[OF check_raised(2)]
      by (intro pass_inv_step[where ?s2.0 = s' and i = i]) simp_all
  next
    case (already i s1)
    show ?thesis
      using frame_get[OF already(2)] reply_loop_frame[OF already(3)] already(1)
        Cons.IH[OF already(3)] new_calls_get[OF already(2)]
        get_replied_messages_keeps(1,2)[OF already(2)]
      by (intro pass_inv_step[where ?s2.0 = s1 and i = i]) simp_all
  next
    case (send_failed i s1 s2)
    note g = get_replied_messages_keeps[OF send_failed(2)]
    note p = reply_to_message_keeps(1,2,3)[OF send_failed(3)]
    have f: "frame s s2"
      using frame_get[OF send_failed(2)] frame_reply[OF send_failed(3)] by (rule frame_trans)
    have iss: "new_calls_of s s2 = new_calls_of s1 s2"
      using new_calls_trans[OF frame_get[OF send_failed(2)] frame_reply[OF send_failed(3)]]
        new_calls_get[OF send_failed(2)] by simp
    have fresh: "(channel_id s, i) \<notin> set (message_tracking s)"
      using g(5)[of False] by simp
    show ?thesis
      using f reply_loop_frame[OF send_failed(4)] send_failed(1) Cons.IH[OF send_failed(4)]
        new_calls_reply(1,2)[OF send_failed(3)] fresh g(1,2,3) p iss
      by (intro pass_inv_step[where ?s2.0 = s2 and i = i]) auto
  next
    case (record_raised i s1 s2 e)
    note g = get_replied_messages_keeps[OF record_raised(2)]
    note p = reply_to_message_keeps(1,2,3)[OF record_raised(3)]
    note a = add_replied_message_keeps[OF record_raised(4)]
    have f12: "frame s s2"
      using frame_get[OF record_raised(2)] frame_reply[OF record_raised(3)] by (rule frame_trans)
    have f: "frame s s'"
      using f12 frame_add[OF record_raised(4)] by (rule frame_trans)
    have iss: "new_calls_of s s' = new_calls_of s1 s2"
      using new_calls_trans[OF f12 frame_add[OF record_raised(4)]]
        new_calls_trans[OF frame_get[OF record_raised(2)] frame_reply[OF record_raised(3)]]
        new_calls_get[OF record_raised(2)] new_calls_add[OF record_raised(4)]
      by simp
    have fresh: "(channel_id s, i) \<notin> set (message_tracking s)"
      using g(5)[of False] by simp
    show ?thesis
      using f frame_refl[of s'] record_raised(1) pass_inv_refl[of rest s'] iss fresh
        new_calls_reply(1,2)[OF record_raised(3)]
        g(1,2,3) p(1,2) a(1) a(5)[of e]
      by (intro pass_inv_step[where ?s2.0 = s' and i = i]) auto
  next
    case (replied i s1 s2 s3)
    note g = get_replied_messages_keeps[OF replied(2)]
    note p = reply_to_message_keeps(1,2,3)[OF replied(3)]
    note a = add_replied_message_keeps[OF replied(4)]
    let ?s4 = "s3\<lparr>last_processed_message_id := i\<rparr>"
    have f12: "frame s s2"
      using frame_get[OF replied(2)] frame_reply[OF replied(3)] by (rule frame_trans)
    have f13: "frame s s3"
      using f12 frame_add[OF replied(4)] by (rule frame_trans)
    have f: "frame s ?s4"
      using f13 frame_mark by (rule frame_trans)
    have iss: "new_calls_of s ?s4 = new_calls_of s1 s2"
      using new_calls_trans[OF f13 frame_mark[of s3 i]] new_calls_mark[of s3 i]
        new_calls_trans[OF f12 frame_add[OF replied(4)]]
        new_calls_trans[OF frame_get[OF replied(2)] frame_reply[OF replied(3)]]
        new_calls_get[OF replied(2)] new_calls_add[OF replied(4)]
      by simp
    have fresh: "(channel_id s, i) \<notin> set (message_tracking s)"
      using g(5)[of False] by simp
    have rows: "message_tracking ?s4 = message_tracking s @ [(channel_id s, i)]"
      using a(4)[of "()"] p(2,3) g(2,3) by simp
    show ?thesis
      using f reply_loop_frame[OF replied(5)] replied(1) Cons.IH[OF replied(5)] iss fresh rows
        new_calls_reply(1,2)[OF replied(3)] g(3)
      by (intro pass_inv_step[where ?s2.0 = ?s4 and i = i]) auto
  qed
qed

lemma new_calls_reply_cases:
  assumes "reply_to_message env i b s = (ok, s2)"
  shows "replies (new_calls_of s s2) = [] \<or> replies (new_calls_of s s2) = [(channel_id s, i)]"
  using reply_to_message_keeps(4)[OF assms]
  by (auto simp: new_calls_of_def)

lemma reply_loop_order:
  assumes "reply_loop env new s = (r, s')"
  shows "subseq (replies (new_calls_of s s'))
           (map (\<lambda>m. (channel_id s, msg_get m ''id'' [])) new)"
  using assms
proof (induction new arbitrary: s)
  case Nil
  then show ?case by (simp add: new_calls_refl)
next
  case (Cons m rest)
  from Cons.prems show ?case
  proof (cases rule: reply_loop_ConsE)
    case no_id
    then show ?thesis by (simp add: new_calls_refl)
  next
    case (check_raised i e)
    then show ?thesis by (simp add: new_calls_get)
  next
    case (already i s1)
    have "new_calls_of s s' = new_calls_of s1 s'"
      using new_calls_trans[OF frame_get[OF already(2)] reply_loop_frame[OF already(3)]]
        new_calls_get[OF already(2)] by simp
    then show ?thesis
      using Cons.IH[OF already(3)] get_replied_messages_keeps(3)[OF already(2)]
      by (auto intro: list_emb_Cons)
  next
    case (send_failed i s1 s2)
    note g = get_replied_messages_keeps[OF send_failed(2)]
    note p = reply_to_message_keeps(1,2,3)[OF send_failed(3)]
    have f: "frame s s2"
      using frame_get[OF send_failed(2)] frame_reply[OF send_failed(3)] by (rule frame_trans)
    have "new_calls_of s s2 = new_calls_of s1 s2"
      using new_calls_trans[OF frame_get[OF send_failed(2)] frame_reply[OF send_failed(3)]]
        new_calls_get[OF send_failed(2)] by simp
    then have one: "replies (new_calls_of s s2) = [] \<or> replies (new_calls_of s s2) = [(channel_id s, i)]"
      using new_calls_reply_cases[OF send_failed(3)] g(3) by simp
    have split: "replies (new_calls_of s s') = replies (new_calls_of s s2) @ replies (new_calls_of s2 s')"
      using new_calls_trans[OF f reply_loop_frame[OF send_failed(4)]] by (simp add: replies_append)
    have ih: "subseq (replies (new_calls_of s2 s')) (map (\<lambda>m. (channel_id s, msg_get m ''id'' [])) rest)"
      using Cons.IH[OF send_failed(4)] p(3) g(3) by simp
    have idm: "msg_get m ''id'' [] = i"
      using send_failed(1) by (simp add: msg_get_def)
    from one show ?thesis
    proof
      assume "replies (new_calls_of s s2) = []"
      with split ih show ?thesis by (auto intro: list_emb_Cons)
    next
      assume "replies (new_calls_of s s2) = [(channel_id s, i)]"
      with split ih idm show ?thesis by simp
    qed
  next
    case (record_raised i s1 s2 e)
    note g = get_replied_messages_keeps[OF record_raised(2)]
    have f12: "frame s s2"
      using frame_get[OF record_raised(2)] frame_reply[OF record_raised(3)] by (rule frame_trans)
    have "new_calls_of s s' = new_calls_of s1 s2"
      using new_calls_trans[OF f12 frame_add[OF record_raised(4)]]
        new_calls_trans[OF frame_get[OF record_raised(2)] frame_reply[OF record_raised(3)]]
        new_calls_get[OF record_raised(2)] new_calls_add[OF record_raised(4)]
      by simp
    then have "replies (new_calls_of s s') = [(channel_id s, i)]"
      using new_calls_reply(3)[OF record_raised(3)] g(3) by simp
    moreover have "msg_get m ''id'' [] = i"
      using record_raised(1) by (simp add: msg_get_def)
    ultimately show ?thesis by simp
  next
    case (replied i s1 s2 s3)
    note g = get_replied_messages_keeps[OF replied(2)]
    note p = reply_to_message_keeps(1,2,3)[OF replied(3)]
    note a = add_replied_message_keeps[OF replied(4)]
    let ?s4 = "s3\<lparr>last_processed_message_id := i\<rparr>"
    have f12: "frame s s2"
      using frame_get[OF replied(2)] frame_reply[OF replied(3)] by (rule frame_trans)
    have f13: "frame s s3"
      using f12 frame_add[OF replied(4)] by (rule frame_trans)
    have f: "frame s ?s4"
      using f13 frame_mark by (rule frame_trans)
    have "new_calls_of s ?s4 = new_calls_of s1 s2"
      using new_calls_trans[OF f13 frame_mark[of s3 i]] new_calls_mark[of s3 i]
        new_calls_trans[OF f12 frame_add[OF replied(4)]]
        new_calls_trans[OF frame_get[OF replied(2)] frame_reply[OF replied(3)]]
        new_calls_get[OF replied(2)] new_calls_add[OF replied(4)]
      by simp
    then have one: "replies (new_calls_of s ?s4) = [(channel_id s, i)]"
      using new_calls_reply(3)[OF replied(3)] g(3) by simp
    have split: "replies (new_calls_of s s') = replies (new_calls_of s ?s4) @ replies (new_calls_of ?s4 s')"
      using new_calls_trans[OF f reply_loop_frame[OF replied(5)]] by (simp add: replies_append)
    have ch: "channel_id ?s4 = channel_id s"
      using a(2) p(3) g(3) by simp
    have ih: "subseq (replies (new_calls_of ?s4 s')) (map (\<lambda>m. (channel_id s, msg_get m ''id'' [])) rest)"
      using Cons.IH[OF replied(5)] unfolding ch .
    have idm: "msg_get m ''id'' [] = i"
      using replied(1) by (simp add: msg_get_def)
    from one split ih idm show ?thesis by simp
  qed
qed

lemma read_messages_keeps:
  assumes "read_messages env s = (msgs, s1)"
  shows "last_processed_message_id s1 = last_processed_message_id s"
    and "message_tracking s1 = message_tracking s"
    and "channel_id s1 = channel_id s"
    and "calls s1 = calls s @ [ReadMessages (channel_id s) (message_read_count s)]"
  using assms
  by (auto simp: read_messages_def Let_def split: prod.splits sum.splits option.splits)

lemma frame_read: "read_messages env s = (msgs, s1) \<Longrightarrow> frame s s1"
  by (simp add: frame_def read_messages_keeps)

lemma new_calls_read:
  "read_messages env s = (msgs, s1) \<Longrightarrow>
   new_calls_of s s1 = [ReadMessages (channel_id s) (message_read_count s)]"
  by (simp add: new_calls_of_def read_messages_keeps)

lemma pass_inv_after_read:
  assumes rd: "read_messages env s = (msgs, s1)"
    and f: "frame s1 s'"
    and inv: "pass_inv new s1 s'"
  shows "pass_inv new s s'"
proof -
  have "new_calls_of s s' = ReadMessages (channel_id s) (message_read_count s) # new_calls_of s1 s'"
    using new_calls_trans[OF frame_read[OF rd] f] new_calls_read[OF rd] by simp
  then show ?thesis
    using inv read_messages_keeps(1,2,3)[OF rd] unfolding pass_inv_def by simp
qed

lemma collect_new_above:
  assumes run: "collect_new w msgs acc = Inr new"
    and acc: "\<forall>m \<in> set acc. \<forall>i. map_of m ''id'' = Some i \<longrightarrow> w < i"
  shows "\<forall>m \<in> set new. \<forall>i. map_of m ''id'' = Some i \<longrightarrow> w < i"
proof (intro ballI allI impI)
  fix m i
  assume m: "m \<in> set new" and i: "map_of m ''id'' = Some i"
  have "new = acc @ filter (\<lambda>m. \<not> is_bot_related (msg_get m ''author'' []) (msg_get m ''message'' [])
                                   \<and> msg_get m ''id'' [] > w) msgs"
    using collect_new_eq[OF collect_new_Inr_ids[OF run], of w acc] run by simp
  with m have "m \<in> set acc \<or> msg_get m ''id'' [] > w"
    by auto
  then show "w < i"
  proof
    assume "m \<in> set acc"
    with acc i show ?thesis by blast
  next
    assume "msg_get m ''id'' [] > w"
    with i show ?thesis by (simp add: msg_get_def)
  qed
qed

lemma process_new_messages_pass:
  assumes "process_new_messages env s = (r, s')"
  shows "frame s s'"
    and "\<exists>new. pass_inv new s s' \<and>
           (\<forall>m \<in> set new. \<forall>i. map_of m ''id'' = Some i \<longrightarrow> last_processed_message_id s < i)"
proof -
  have "frame s s' \<and> (\<exists>new. pass_inv new s s' \<and>
           (\<forall>m \<in> set new. \<forall>i. map_of m ''id'' = Some i \<longrightarrow> last_processed_message_id s < i))"
  proof (cases "last_processed_message_id s = []")
    case True
    with assms have "s' = s" by (simp add: process_new_messages_def)
    then show ?thesis
      using pass_inv_refl[of "[]" s] by (auto simp: frame_refl)
  next
    case False
    obtain msgs s1 where rd: "read_messages env s = (msgs, s1)"
      by (cases "read_messages env s")
    note k = read_messages_keeps[OF rd]
    show ?thesis
    proof (cases "collect_new (last_processed_message_id s1) (rev msgs) []")
      case (Inl e)
      with assms False rd have "s' = s1"
        by (cases msgs) (simp_all add: process_new_messages_def)
      then show ?thesis
        using frame_read[OF rd] pass_inv_after_read[OF rd frame_refl pass_inv_refl, of "[]"]
        by auto
    next
      case (Inr new)
      show ?thesis
      proof (cases msgs)
        case Nil
        with assms False rd have "s' = s1"
          by (simp add: process_new_messages_def)
        then show ?thesis
          using frame_read[OF rd] pass_inv_after_read[OF rd frame_refl pass_inv_refl, of "[]"]
          by auto
      next
        case (Cons m ms)
        with assms False rd Inr have run: "reply_loop env new s1 = (r, s')"
          by (simp add: process_new_messages_def)
        have above: "\<forall>m \<in> set new. \<forall>i. map_of m ''id'' = Some i \<longrightarrow> last_processed_message_id s < i"
          using collect_new_above[OF Inr] k(1) by simp
        have "frame s s'"
          using frame_read[OF rd] reply_loop_frame[OF run] by (rule frame_trans)
        moreover have "pass_inv new s s'"
          using rd reply_loop_frame[OF run] reply_loop_pass_inv[OF run]
          by (rule pass_inv_after_read)
        ultimately show ?thesis using above by blast
      qed
    qed
  qed
  then show "frame s s'"
    and "\<exists>new. pass_inv new s s' \<and>
           (\<forall>m \<in> set new. \<forall>i. map_of m ''id'' = Some i \<longrightarrow> last_processed_message_id s < i)"
    by blast+
qed

lemma pass_watermark:
  assumes "process_new_messages env s = (r, s')"
  shows "last_processed_message_id s \<le> last_processed_message_id s'"
    and "last_processed_message_id s' \<noteq> last_processed_message_id s \<Longrightarrow>
         (channel_id s, last_processed_message_id s') \<in> set (message_tracking s') \<and>
         (channel_id s, last_processed_message_id s') \<in> set (confirmed (new_calls_of s s'))"
proof -
  from process_new_messages_pass(2)[OF assms] obtain new where
    inv: "pass_inv new s s'" and
    above: "\<forall>m \<in> set new. \<forall>i. map_of m ''id'' = Some i \<longrightarrow> last_processed_message_id s < i"
    by blast
  from inv have d: "last_processed_message_id s' = last_processed_message_id s \<or>
       (\<exists>m \<in> set new. map_of m ''id'' = Some (last_processed_message_id s')) \<and>
       (channel_id s, last_processed_message_id s') \<in> set (message_tracking s') \<and>
       (channel_id s, last_processed_message_id s') \<in> set (confirmed (new_calls_of s s'))"
    unfolding pass_inv_def by blast
  with above show "last_processed_message_id s \<le> last_processed_message_id s'"
    by (auto simp: less_imp_le)
  from d show "last_processed_message_id s' \<noteq> last_processed_message_id s \<Longrightarrow>
         (channel_id s, last_processed_message_id s') \<in> set (message_tracking s') \<and>
         (channel_id s, last_processed_message_id s') \<in> set (confirmed (new_calls_of s s'))"
    by blast
qed

lemma ticks_watermark: "last_processed_message_id s \<le> last_processed_message_id (ticks env n s)"
proof (induction n arbitrary: s)
  case 0
  then show ?case by simp
next
  case (Suc n)
  have "last_processed_message_id s \<le> last_processed_message_id (tick env s)"
    unfolding tick_def by (rule pass_watermark(1)[OF surjective_pairing])
  also have "\<dots> \<le> last_processed_message_id (ticks env n (tick env s))"
    by (rule Suc.IH)
  finally show ?case by simp
qed







lemmas agent_eval =
  process_new_messages_def read_messages_def reply_to_message_def generate_reply_def
  get_similar_content_def get_replied_messages_def add_replied_message_def has_nul_def
  get_latest_message_id_def init_last_processed_def
  is_bot_related_def msg_get_def lower_def lower_char_def
  scripted_env_def agent0_def mk_msg_def new_calls_of_def tick_def Let_def

lemmas twitter_eval =
  perform_action_def actions_def post_tweet_def reply_to_tweet_def like_tweet_def
  read_timeline_def get_latest_tweets_def validate_tweet_text_def
  make_request_def get_oauth_def get_credentials_def required_vars_def user_id_of_def
  msg_get_def lower_def lower_char_def scripted_twitter_env_def twitter0_def Let_def

section \<open>The claims\<close>

subsection \<open>C1\<close>

text \<open>
  Claim C1, amended. The watermark never decreases: not over one pass of
  \<open>process_new_messages\<close>, whether it ends normally or with an exception, and so not over
  any number of ticks of the loop. When a pass moves the watermark, it moves it to the id
  of a message of this pass whose reply reported success and whose row was recorded. A
  reply attempt itself, failed or not, leaves the watermark where it is. (A failed
  attempt never makes its message the watermark, but a later success of the same pass can
  carry the watermark past it.)
\<close>

theorem watermark_moves_forward_to_confirmed_replies:
  "last_processed_message_id s \<le> last_processed_message_id (ticks env n s) \<and>
   last_processed_message_id s \<le> last_processed_message_id (snd (process_new_messages env s)) \<and>
   (last_processed_message_id (snd (process_new_messages env s)) \<noteq> last_processed_message_id s \<longrightarrow>
      (channel_id s, last_processed_message_id (snd (process_new_messages env s)))
        \<in> set (message_tracking (snd (process_new_messages env s))) \<and>
      (\<exists>new_calls reply.
         calls (snd (process_new_messages env s)) = calls s @ new_calls \<and>
         ReplyToMessage (channel_id s) (last_processed_message_id (snd (process_new_messages env s)))
           reply True \<in> set new_calls)) \<and>
   last_processed_message_id (snd (reply_to_message env i body s)) = last_processed_message_id s"
proof -
  let ?s' = "snd (process_new_messages env s)"
  have run: "process_new_messages env s = (fst (process_new_messages env s), ?s')"
    by simp
  have c: "calls ?s' = calls s @ new_calls_of s ?s'"
    by (rule frame_calls[OF process_new_messages_pass(1)[OF run]])
  have "last_processed_message_id ?s' \<noteq> last_processed_message_id s \<longrightarrow>
      (channel_id s, last_processed_message_id ?s') \<in> set (message_tracking ?s') \<and>
      (\<exists>new_calls reply. calls ?s' = calls s @ new_calls \<and>
         ReplyToMessage (channel_id s) (last_processed_message_id ?s') reply True \<in> set new_calls)"
    using pass_watermark(2)[OF run] c by (auto simp: confirmed_iff)
  moreover have "last_processed_message_id (snd (reply_to_message env i body s)) =
                 last_processed_message_id s"
    by (rule reply_to_message_keeps(1)[OF surjective_pairing])
  ultimately show ?thesis
    using ticks_watermark[of s env n] pass_watermark(1)[OF run] by blast
qed

text \<open>
  An instance for C1: the feed holds 4 and 3, the reply to 3 fails and the reply to 4
  succeeds; the watermark moves from 0 to 4, and the row of 4 is in the table.
\<close>

theorem watermark_moves_forward_witness:
  "last_processed_message_id
     (snd (process_new_messages
        (scripted_env (Inr (Some [mk_msg ''4'' ''bob'' ''second'', mk_msg ''3'' ''alice'' ''first'']))
           [''3''] (Inr []))
        (agent0 ''0'' []))) = ''4'' \<and>
   (''chan'', ''4'') \<in> set (message_tracking
     (snd (process_new_messages
        (scripted_env (Inr (Some [mk_msg ''4'' ''bob'' ''second'', mk_msg ''3'' ''alice'' ''first'']))
           [''3''] (Inr []))
        (agent0 ''0'' []))))"
proof -
  let ?env = "scripted_env (Inr (Some [mk_msg ''4'' ''bob'' ''second'', mk_msg ''3'' ''alice'' ''first'']))
           [''3''] (Inr [])"
  have moved: "last_processed_message_id (snd (process_new_messages ?env (agent0 ''0'' []))) = ''4''"
    by (simp add: agent_eval)
  have start: "last_processed_message_id (agent0 ''0'' []) = ''0''" "channel_id (agent0 ''0'' []) = ''chan''"
    by (simp_all add: agent0_def)
  from watermark_moves_forward_to_confirmed_replies[of "agent0 ''0'' []" ?env 0 "''3''" "''first''"]
    moved start
  show ?thesis by simp
qed

text \<open>
  C1 as stated fails on that input: the reply to 3 is attempted and fails, the reply to 4
  succeeds, and the pass ends with the watermark at 4. Message 3 is no longer above the
  watermark, and on the next fetch of the same messages nothing is a candidate.
\<close>

theorem failed_reply_overtaken_by_watermark:
  "replies (calls (snd (process_new_messages
        (scripted_env (Inr (Some [mk_msg ''4'' ''bob'' ''second'', mk_msg ''3'' ''alice'' ''first'']))
           [''3''] (Inr []))
        (agent0 ''0'' [])))) = [(''chan'', ''3''), (''chan'', ''4'')] \<and>
   confirmed (calls (snd (process_new_messages
        (scripted_env (Inr (Some [mk_msg ''4'' ''bob'' ''second'', mk_msg ''3'' ''alice'' ''first'']))
           [''3''] (Inr []))
        (agent0 ''0'' [])))) = [(''chan'', ''4'')] \<and>
   last_processed_message_id (snd (process_new_messages
        (scripted_env (Inr (Some [mk_msg ''4'' ''bob'' ''second'', mk_msg ''3'' ''alice'' ''first'']))
           [''3''] (Inr []))
        (agent0 ''0'' []))) = ''4'' \<and>
   \<not> ''3'' > ''4'' \<and>
   collect_new ''4'' (rev [mk_msg ''4'' ''bob'' ''second'', mk_msg ''3'' ''alice'' ''first'']) [] = Inr []"
  by (simp add: agent_eval)

subsection \<open>C2\<close>




subsection \<open>C3\<close>

text \<open>
  Claim C3, amended. The candidates are the fetched messages in reverse fetch order,
  without the bot-related ones and the ones not above the watermark. The list is reversed,
  not sorted: the candidates are in ascending order of id whenever the fetched list is
  newest first, that is in descending order of id. The replies of the pass go out in the
  order of the candidates.
\<close>

theorem candidates_in_reverse_fetch_order:
  assumes "collect_new watermark (rev messages) [] = Inr new_messages"
  shows "new_messages =
           filter (\<lambda>m. \<not> is_bot_related (msg_get m ''author'' []) (msg_get m ''message'' []) \<and>
                        msg_get m ''id'' [] > watermark)
             (rev messages) \<and>
         (sorted (rev (map (\<lambda>m. msg_get m ''id'' []) messages)) \<longrightarrow>
            sorted (map (\<lambda>m. msg_get m ''id'' []) new_messages)) \<and>
         (\<forall>env (s :: 'w state).
            subseq (replies (new_calls_of s (snd (reply_loop env new_messages s))))
              (map (\<lambda>m. (channel_id s, msg_get m ''id'' [])) new_messages))"
proof -
  have eq: "new_messages =
           filter (\<lambda>m. \<not> is_bot_related (msg_get m ''author'' []) (msg_get m ''message'' []) \<and>
                        msg_get m ''id'' [] > watermark)
             (rev messages)"
    using collect_new_eq[OF collect_new_Inr_ids[OF assms], of watermark "[]"] assms by simp
  moreover have "sorted (map (\<lambda>m. msg_get m ''id'' []) new_messages)"
    if "sorted (rev (map (\<lambda>m. msg_get m ''id'' []) messages))"
    using that unfolding eq by (simp add: rev_map sorted_filter)
  moreover have "subseq (replies (new_calls_of s (snd (reply_loop env new_messages s))))
              (map (\<lambda>m. (channel_id s, msg_get m ''id'' [])) new_messages)"
    for env :: "('w, 'r) env" and s :: "'w state"
    by (rule reply_loop_order[OF surjective_pairing])
  ultimately show ?thesis by blast
qed

text \<open>An instance for C3: fetched newest first as 5, 4, 3, the candidates are 3, 4, 5.\<close>

theorem candidates_in_reverse_fetch_order_witness:
  "collect_new ''0''
     (rev [mk_msg ''5'' ''carol'' ''third'', mk_msg ''4'' ''bob'' ''second'', mk_msg ''3'' ''alice'' ''first''])
     [] =
     Inr [mk_msg ''3'' ''alice'' ''first'', mk_msg ''4'' ''bob'' ''second'', mk_msg ''5'' ''carol'' ''third''] \<and>
   sorted (rev (map (\<lambda>m. msg_get m ''id'' [])
     [mk_msg ''5'' ''carol'' ''third'', mk_msg ''4'' ''bob'' ''second'', mk_msg ''3'' ''alice'' ''first''])) \<and>
   sorted (map (\<lambda>m. msg_get m ''id'' [])
     [mk_msg ''3'' ''alice'' ''first'', mk_msg ''4'' ''bob'' ''second'', mk_msg ''5'' ''carol'' ''third''])"
proof -
  have run: "collect_new ''0''
     (rev [mk_msg ''5'' ''carol'' ''third'', mk_msg ''4'' ''bob'' ''second'', mk_msg ''3'' ''alice'' ''first''])
     [] =
     Inr [mk_msg ''3'' ''alice'' ''first'', mk_msg ''4'' ''bob'' ''second'', mk_msg ''5'' ''carol'' ''third'']"
    by (simp add: agent_eval)
  have fetched: "sorted (rev (map (\<lambda>m. msg_get m ''id'' [])
     [mk_msg ''5'' ''carol'' ''third'', mk_msg ''4'' ''bob'' ''second'', mk_msg ''3'' ''alice'' ''first'']))"
    by (simp add: agent_eval)
  from candidates_in_reverse_fetch_order[OF run] run fetched show ?thesis
    by blast
qed

text \<open>
  C3 as stated fails: fetched as 5, 3, 4 with the watermark below all three, the
  candidates are 4, 3, 5, and the replies are sent in that order.
\<close>

theorem candidates_not_sorted_by_id:
  "collect_new ''0''
     (rev [mk_msg ''5'' ''carol'' ''third'', mk_msg ''3'' ''alice'' ''first'', mk_msg ''4'' ''bob'' ''second''])
     [] =
     Inr [mk_msg ''4'' ''bob'' ''second'', mk_msg ''3'' ''alice'' ''first'', mk_msg ''5'' ''carol'' ''third''] \<and>
   replies (calls (snd (process_new_messages
     (scripted_env
        (Inr (Some [mk_msg ''5'' ''carol'' ''third'', mk_msg ''3'' ''alice'' ''first'',
                    mk_msg ''4'' ''bob'' ''second'']))
        [] (Inr []))
     (agent0 ''0'' [])))) = [(''chan'', ''4''), (''chan'', ''3''), (''chan'', ''5'')]"
  by (simp add: agent_eval)

subsection \<open>C4\<close>

text \<open>
  Claim C4, amended. \<open>perform_action\<close> fails with \<open>TwitterConnectionError\<close>, leaving the
  connection untouched and sending nothing, exactly when the action name is not one of the
  five declared ones. For a declared action it calls the bound handler on the arguments as
  they are given; the declared \<open>args\<close> are not consulted. The call fails with \<open>TypeError\<close>
  before the handler's body runs, and nothing is sent, when a parameter that the handler
  has no default for is absent: \<open>message\<close> for \<open>post-tweet\<close> and \<open>reply-to-tweet\<close>, \<open>tweet_id\<close>
  for \<open>like-tweet\<close> and \<open>reply-to-tweet\<close>, \<open>username\<close> for \<open>get-latest-tweets\<close>.
\<close>

theorem perform_action_dispatch:
  "(map_of (actions env) action_name = None \<longleftrightarrow>
      action_name \<notin> {''get-latest-tweets'', ''post-tweet'', ''read-timeline'', ''like-tweet'',
                       ''reply-to-tweet''}) \<and>
   (map_of (actions env) action_name = None \<longrightarrow>
      perform_action env action_name kw t = (Inl TwitterConnectionError, t)) \<and>
   (\<forall>args func. map_of (actions env) action_name = Some (args, func) \<longrightarrow>
      perform_action env action_name kw t = func kw t) \<and>
   (action_name \<in> {''post-tweet'', ''reply-to-tweet''} \<and> map_of kw ''message'' = None \<longrightarrow>
      perform_action env action_name kw t = (Inl TypeError, t)) \<and>
   (action_name \<in> {''like-tweet'', ''reply-to-tweet''} \<and> map_of kw ''tweet_id'' = None \<longrightarrow>
      perform_action env action_name kw t = (Inl TypeError, t)) \<and>
   (action_name = ''get-latest-tweets'' \<and> map_of kw ''username'' = None \<longrightarrow>
      perform_action env action_name kw t = (Inl TypeError, t))"
proof -
  have a: "map_of (actions env) action_name = None \<longleftrightarrow>
      action_name \<notin> {''get-latest-tweets'', ''post-tweet'', ''read-timeline'', ''like-tweet'',
                       ''reply-to-tweet''}"
    by (simp add: actions_def)
  have b: "map_of (actions env) action_name = None \<longrightarrow>
      perform_action env action_name kw t = (Inl TwitterConnectionError, t)"
    by (simp add: perform_action_def)
  have c: "\<forall>args func. map_of (actions env) action_name = Some (args, func) \<longrightarrow>
      perform_action env action_name kw t = func kw t"
    by (simp add: perform_action_def)
  have d: "action_name \<in> {''post-tweet'', ''reply-to-tweet''} \<and> map_of kw ''message'' = None \<longrightarrow>
      perform_action env action_name kw t = (Inl TypeError, t)"
    by (auto simp: perform_action_def actions_def post_tweet_def reply_to_tweet_def
        split: option.splits)
  have e: "action_name \<in> {''like-tweet'', ''reply-to-tweet''} \<and> map_of kw ''tweet_id'' = None \<longrightarrow>
      perform_action env action_name kw t = (Inl TypeError, t)"
    by (auto simp: perform_action_def actions_def like_tweet_def reply_to_tweet_def)
  have f: "action_name = ''get-latest-tweets'' \<and> map_of kw ''username'' = None \<longrightarrow>
      perform_action env action_name kw t = (Inl TypeError, t)"
    by (auto simp: perform_action_def actions_def get_latest_tweets_def)
  from a b c d e f show ?thesis by blast
qed

text \<open>
  An instance for C4: the undeclared action \<open>send-dm\<close> raises \<open>TwitterConnectionError\<close>;
  \<open>reply-to-tweet\<close> called with the single argument \<open>bad_arg\<close> raises \<open>TypeError\<close>; neither
  sends a request.
\<close>

theorem perform_action_dispatch_witness:
  "map_of (actions (scripted_twitter_env 201)) ''send-dm'' = None \<and>
   perform_action (scripted_twitter_env 201) ''send-dm'' [(''message'', PStr ''hi'')] twitter0 =
     (Inl TwitterConnectionError, twitter0) \<and>
   map_of [(''bad_arg'', PInt 1)] ''message'' = None \<and>
   perform_action (scripted_twitter_env 201) ''reply-to-tweet'' [(''bad_arg'', PInt 1)] twitter0 =
     (Inl TypeError, twitter0)"
proof -
  from perform_action_dispatch[of "scripted_twitter_env 201" "''send-dm''" "[(''message'', PStr ''hi'')]" twitter0]
  have a: "map_of (actions (scripted_twitter_env 201)) ''send-dm'' = None \<and>
   perform_action (scripted_twitter_env 201) ''send-dm'' [(''message'', PStr ''hi'')] twitter0 =
     (Inl TwitterConnectionError, twitter0)"
    by simp
  from perform_action_dispatch[of "scripted_twitter_env 201" "''reply-to-tweet''" "[(''bad_arg'', PInt 1)]" twitter0]
  have b: "map_of [(''bad_arg'', PInt 1)] ''message'' = None \<and>
   perform_action (scripted_twitter_env 201) ''reply-to-tweet'' [(''bad_arg'', PInt 1)] twitter0 =
     (Inl TypeError, twitter0)"
    by simp
  from a b show ?thesis by blast
qed

text \<open>
  C4 as stated fails: \<open>like-tweet\<close> declares \<open>tweet_id\<close> as a \<open>str\<close>; called with the integer 1
  the arguments do not satisfy the declared schema, yet the handler runs, the request is
  sent with the integer in its body, and the call returns the decoded response.
\<close>

theorem perform_action_sends_ill_typed_argument:
  "map_option fst (map_of (actions (scripted_twitter_env 201)) ''like-tweet'') =
     Some [(''tweet_id'', ''str'')] \<and>
   \<not> spec_satisfies_schema [(''tweet_id'', ''str'')] [(''tweet_id'', PInt 1)] \<and>
   fst (perform_action (scripted_twitter_env 201) ''like-tweet'' [(''tweet_id'', PInt 1)] twitter0) =
     Inr 0 \<and>
   requests (snd (perform_action (scripted_twitter_env 201) ''like-tweet'' [(''tweet_id'', PInt 1)]
                    twitter0)) =
     [\<lparr>http_method = ''post'', url = ''https://api.twitter.com/2/users/42/likes'',
       sent = Json [(''tweet_id'', PInt 1)]\<rparr>]"
  by (simp add: perform_action_def actions_def like_tweet_def make_request_def get_oauth_def
      get_credentials_def required_vars_def msg_get_def user_id_of_def
      scripted_twitter_env_def twitter0_def spec_satisfies_schema_def lower_def lower_char_def
      Let_def)

subsection \<open>C5\<close>

text \<open>
  Claim C5. In any pass of \<open>process_new_messages\<close>, and so in a replay of a fetched
  message set from any watermark, every reply issued is for a (channel, message) pair that
  was not in the table when the pass began: a message already recorded gets no second
  reply. Every row the pass adds belongs to a reply of this pass that reported success.
\<close>

theorem no_reply_for_recorded_message:
  "\<exists>new_calls.
     calls (snd (process_new_messages env s)) = calls s @ new_calls \<and>
     (\<forall>c i reply ok. ReplyToMessage c i reply ok \<in> set new_calls \<longrightarrow>
        c = channel_id s \<and> (c, i) \<notin> set (message_tracking s)) \<and>
     (\<forall>row \<in> set (message_tracking (snd (process_new_messages env s))).
        row \<in> set (message_tracking s) \<or>
        (\<exists>reply. ReplyToMessage (fst row) (snd row) reply True \<in> set new_calls))"
proof -
  let ?s' = "snd (process_new_messages env s)"
  have run: "process_new_messages env s = (fst (process_new_messages env s), ?s')"
    by simp
  have c: "calls ?s' = calls s @ new_calls_of s ?s'"
    by (rule frame_calls[OF process_new_messages_pass(1)[OF run]])
  from process_new_messages_pass(2)[OF run] obtain new where inv: "pass_inv new s ?s'"
    by blast
  have a: "\<forall>c i reply ok. ReplyToMessage c i reply ok \<in> set (new_calls_of s ?s') \<longrightarrow>
        c = channel_id s \<and> (c, i) \<notin> set (message_tracking s)"
  proof (intro allI impI)
    fix c i reply ok
    assume "ReplyToMessage c i reply ok \<in> set (new_calls_of s ?s')"
    then have "(c, i) \<in> set (replies (new_calls_of s ?s'))"
      by (auto simp: replies_iff)
    with inv show "c = channel_id s \<and> (c, i) \<notin> set (message_tracking s)"
      unfolding pass_inv_def by blast
  qed
  have b: "\<forall>row \<in> set (message_tracking ?s').
        row \<in> set (message_tracking s) \<or>
        (\<exists>reply. ReplyToMessage (fst row) (snd row) reply True \<in> set (new_calls_of s ?s'))"
  proof
    fix row
    assume "row \<in> set (message_tracking ?s')"
    with inv have "row \<in> set (message_tracking s) \<or> row \<in> set (confirmed (new_calls_of s ?s'))"
      unfolding pass_inv_def by blast
    then show "row \<in> set (message_tracking s) \<or>
        (\<exists>reply. ReplyToMessage (fst row) (snd row) reply True \<in> set (new_calls_of s ?s'))"
      using confirmed_iff[of "fst row" "snd row"] by auto
  qed
  from a b c show ?thesis by blast
qed

text \<open>
  An instance for C5: with 3 recorded and 4 not, a pass over the feed 4, 3 from watermark 0
  replies to 4 only and records it; replayed from watermark 0 with both rows recorded,
  the same feed draws no reply.
\<close>

theorem no_reply_for_recorded_message_witness:
  "(''chan'', ''3'') \<in> set (message_tracking (agent0 ''0'' [(''chan'', ''3'')])) \<and>
   replies (new_calls_of (agent0 ''0'' [(''chan'', ''3'')])
     (snd (process_new_messages
        (scripted_env (Inr (Some [mk_msg ''4'' ''bob'' ''second'', mk_msg ''3'' ''alice'' ''first'']))
           [] (Inr []))
        (agent0 ''0'' [(''chan'', ''3'')])))) = [(''chan'', ''4'')] \<and>
   message_tracking
     (snd (process_new_messages
        (scripted_env (Inr (Some [mk_msg ''4'' ''bob'' ''second'', mk_msg ''3'' ''alice'' ''first'']))
           [] (Inr []))
        (agent0 ''0'' [(''chan'', ''3'')]))) = [(''chan'', ''3''), (''chan'', ''4'')] \<and>
   replies (new_calls_of (agent0 ''0'' [(''chan'', ''3''), (''chan'', ''4'')])
     (snd (process_new_messages
        (scripted_env (Inr (Some [mk_msg ''4'' ''bob'' ''second'', mk_msg ''3'' ''alice'' ''first'']))
           [] (Inr []))
        (agent0 ''0'' [(''chan'', ''3''), (''chan'', ''4'')])))) = []"
  using no_reply_for_recorded_message[of
      "scripted_env (Inr (Some [mk_msg ''4'' ''bob'' ''second'', mk_msg ''3'' ''alice'' ''first'']))
           [] (Inr [])"
      "agent0 ''0'' [(''chan'', ''3'')]"]
    no_reply_for_recorded_message[of
      "scripted_env (Inr (Some [mk_msg ''4'' ''bob'' ''second'', mk_msg ''3'' ''alice'' ''first'']))
           [] (Inr [])"
      "agent0 ''0'' [(''chan'', ''3''), (''chan'', ''4'')]"]
  by (simp add: agent_eval)

subsection \<open>C6\<close>

text \<open>
  Claim C6, amended. A message is never a candidate, whatever its id, when its author
  contains \<open>APP\<close>, or its author contains the handle \<open>zerecall\<close> in any letter case, or its
  body contains \<open>@zerecall\<close> or \<open><@zerecall\<close> in any letter case. (The bare handle in the
  body, without \<open>@\<close>, does not exclude a message.)
\<close>

theorem bot_related_never_candidate:
  assumes "str_in ''APP'' (msg_get m ''author'' []) \<or>
           str_in ''zerecall'' (lower (msg_get m ''author'' [])) \<or>
           str_in ''@zerecall'' (lower (msg_get m ''message'' [])) \<or>
           str_in ''<@zerecall'' (lower (msg_get m ''message'' []))"
    and "collect_new watermark messages [] = Inr new_messages"
  shows "m \<notin> set new_messages"
proof -
  have "is_bot_related (msg_get m ''author'' []) (msg_get m ''message'' [])"
    using assms(1) by (auto simp: is_bot_related_def)
  moreover have "new_messages =
           filter (\<lambda>m. \<not> is_bot_related (msg_get m ''author'' []) (msg_get m ''message'' []) \<and>
                        msg_get m ''id'' [] > watermark) messages"
    using collect_new_eq[OF collect_new_Inr_ids[OF assms(2)], of watermark "[]"] assms(2) by simp
  ultimately show ?thesis by simp
qed

text \<open>
  An instance for C6: the body \<open>hey @zerecall check this\<close> keeps message 9 out of the
  candidates although 9 is above the watermark 0.
\<close>

theorem bot_related_never_candidate_witness:
  "str_in ''@zerecall'' (lower (msg_get (mk_msg ''9'' ''dave'' ''hey @zerecall check this'') ''message'' [])) \<and>
   ''9'' > ''0'' \<and>
   collect_new ''0''
     [mk_msg ''8'' ''erin'' ''hello'', mk_msg ''9'' ''dave'' ''hey @zerecall check this''] [] =
     Inr [mk_msg ''8'' ''erin'' ''hello''] \<and>
   mk_msg ''9'' ''dave'' ''hey @zerecall check this'' \<notin> set [mk_msg ''8'' ''erin'' ''hello'']"
proof -
  have tok: "str_in ''@zerecall''
               (lower (msg_get (mk_msg ''9'' ''dave'' ''hey @zerecall check this'') ''message'' []))"
    by (simp add: agent_eval)
  have run: "collect_new ''0''
     [mk_msg ''8'' ''erin'' ''hello'', mk_msg ''9'' ''dave'' ''hey @zerecall check this''] [] =
     Inr [mk_msg ''8'' ''erin'' ''hello'']"
    by (simp add: agent_eval)
  from bot_related_never_candidate[OF _ run, of "mk_msg ''9'' ''dave'' ''hey @zerecall check this''"]
    tok run
  show ?thesis by simp
qed

text \<open>
  C6 as stated fails: the body \<open>zerecall rocks\<close> contains the handle, so the
  specification's filter drops the message, but the code keeps it as a candidate.
\<close>

theorem bare_handle_in_body_is_candidate:
  "spec_self_filter (msg_get (mk_msg ''5'' ''bob'' ''zerecall rocks'') ''author'' [])
     (msg_get (mk_msg ''5'' ''bob'' ''zerecall rocks'') ''message'' []) \<and>
   collect_new ''0'' [mk_msg ''5'' ''bob'' ''zerecall rocks''] [] =
     Inr [mk_msg ''5'' ''bob'' ''zerecall rocks'']"
  by (simp add: agent_eval spec_self_filter_def spec_self_mention_tokens_def)

subsection \<open>C7\<close>

text \<open>
  Claim C7. When the embedding or similarity search raises, \<open>get_similar_content\<close> returns
  the empty list, and \<open>_generate_reply\<close> goes on to invoke \<open>generate-text\<close> with the task
  prompt and with the persona lines alone as system prompt, returning what that action
  returns. The system prompt is the persona lines alone exactly when there is no snippet.
\<close>

theorem context_failure_degrades:
  "(\<forall>limit e. fst (similarity_search env query limit (world s)) = Inl e \<longrightarrow>
      fst (get_similar_content env query limit s) = []) \<and>
   (\<forall>e. fst (similarity_search env query 5 (world s)) = Inl e \<longrightarrow>
      fst (generate_reply env query s) =
        fst (generate_text_action env (model_provider s) (reply_prompt (name s) query)
               (join NL (bio s)) (snd (similarity_search env query 5 (world s)))) \<and>
      calls (snd (generate_reply env query s)) =
        calls s @ [GenerateText (model_provider s) (reply_prompt (name s) query) (join NL (bio s))]) \<and>
   (\<forall>rows. system_prompt_of (str_row env) (bio s) rows = join NL (bio s) \<longleftrightarrow> rows = [])"
proof (intro conjI allI impI)
  fix limit e
  assume "fst (similarity_search env query limit (world s)) = Inl e"
  then show "fst (get_similar_content env query limit s) = []"
    by (auto simp: get_similar_content_def split: prod.splits)
next
  fix e
  assume raised: "fst (similarity_search env query 5 (world s)) = Inl e"
  then show "fst (generate_reply env query s) =
        fst (generate_text_action env (model_provider s) (reply_prompt (name s) query)
               (join NL (bio s)) (snd (similarity_search env query 5 (world s))))"
    by (auto simp: generate_reply_def get_similar_content_def system_prompt_of_def Let_def
        split: prod.splits)
  from raised show "calls (snd (generate_reply env query s)) =
        calls s @ [GenerateText (model_provider s) (reply_prompt (name s) query) (join NL (bio s))]"
    by (auto simp: generate_reply_def get_similar_content_def system_prompt_of_def Let_def
        split: prod.splits)
next
  fix rows
  show "system_prompt_of (str_row env) (bio s) rows = join NL (bio s) \<longleftrightarrow> rows = []"
    by (simp add: system_prompt_of_def context_block_def)
qed

text \<open>An instance for C7: the search raises, and the reply is still generated.\<close>

theorem context_failure_degrades_witness:
  "fst (similarity_search (scripted_env (Inr None) [] (Inl (OtherError ''embedding failed'')))
          ''how do I deploy?'' 5 (world (agent0 ''0'' []))) = Inl (OtherError ''embedding failed'') \<and>
   fst (get_similar_content (scripted_env (Inr None) [] (Inl (OtherError ''embedding failed'')))
          ''how do I deploy?'' 5 (agent0 ''0'' [])) = [] \<and>
   fst (generate_reply (scripted_env (Inr None) [] (Inl (OtherError ''embedding failed'')))
          ''how do I deploy?'' (agent0 ''0'' [])) = Inr ''ok'' \<and>
   calls (snd (generate_reply (scripted_env (Inr None) [] (Inl (OtherError ''embedding failed'')))
          ''how do I deploy?'' (agent0 ''0'' []))) =
     [GenerateText ''llm'' (reply_prompt ''zerecall'' ''how do I deploy?'')
        (''You are helpful.'' @ NL @ ''You know code.'')]"
proof -
  have raised: "fst (similarity_search (scripted_env (Inr None) [] (Inl (OtherError ''embedding failed'')))
          ''how do I deploy?'' 5 (world (agent0 ''0'' []))) = Inl (OtherError ''embedding failed'')"
    by (simp add: scripted_env_def)
  from context_failure_degrades[of "scripted_env (Inr None) [] (Inl (OtherError ''embedding failed''))"
      "''how do I deploy?''" "agent0 ''0'' []"] raised
  have "fst (get_similar_content (scripted_env (Inr None) [] (Inl (OtherError ''embedding failed'')))
          ''how do I deploy?'' 5 (agent0 ''0'' [])) = [] \<and>
        fst (generate_reply (scripted_env (Inr None) [] (Inl (OtherError ''embedding failed'')))
          ''how do I deploy?'' (agent0 ''0'' [])) =
        fst (generate_text_action (scripted_env (Inr None) [] (Inl (OtherError ''embedding failed'')))
               (model_provider (agent0 ''0'' [])) (reply_prompt (name (agent0 ''0'' [])) ''how do I deploy?'')
               (join NL (bio (agent0 ''0'' [])))
               (snd (similarity_search (scripted_env (Inr None) [] (Inl (OtherError ''embedding failed'')))
                  ''how do I deploy?'' 5 (world (agent0 ''0'' []))))) \<and>
        calls (snd (generate_reply (scripted_env (Inr None) [] (Inl (OtherError ''embedding failed'')))
          ''how do I deploy?'' (agent0 ''0'' []))) =
        calls (agent0 ''0'' []) @
          [GenerateText (model_provider (agent0 ''0'' []))
             (reply_prompt (name (agent0 ''0'' [])) ''how do I deploy?'')
             (join NL (bio (agent0 ''0'' [])))]"
    by blast
  with raised show ?thesis
    by (simp add: scripted_env_def agent0_def)
qed

subsection \<open>C8\<close>

text \<open>
  Claim C8. \<open>read_messages\<close> returns a list in every case: the empty list when the
  \<open>read-messages\<close> action raises or returns \<open>None\<close> (or an empty list), and otherwise the
  messages the action returned.
\<close>

theorem read_messages_fails_soft:
  "fst (read_messages env s) =
     (case fst (read_messages_action env (channel_id s) (message_read_count s) (world s)) of
        Inl e \<Rightarrow> []
      | Inr None \<Rightarrow> []
      | Inr (Some messages) \<Rightarrow> messages)"
  by (simp add: read_messages_def Let_def split: prod.splits sum.splits option.splits)

text \<open>An instance for C8: a raising action, an absent result and a fetched message.\<close>

theorem read_messages_fails_soft_witness:
  "fst (read_messages (scripted_env (Inl (OtherError ''timeout'')) [] (Inr [])) (agent0 ''0'' [])) = [] \<and>
   fst (read_messages (scripted_env (Inr None) [] (Inr [])) (agent0 ''0'' [])) = [] \<and>
   fst (read_messages (scripted_env (Inr (Some [mk_msg ''7'' ''bob'' ''hi''])) [] (Inr [])) (agent0 ''0'' []))
     = [mk_msg ''7'' ''bob'' ''hi'']"
  using read_messages_fails_soft[of "scripted_env (Inl (OtherError ''timeout'')) [] (Inr [])" "agent0 ''0'' []"]
    read_messages_fails_soft[of "scripted_env (Inr None) [] (Inr [])" "agent0 ''0'' []"]
    read_messages_fails_soft[of "scripted_env (Inr (Some [mk_msg ''7'' ''bob'' ''hi''])) [] (Inr [])" "agent0 ''0'' []"]
  by (simp add: scripted_env_def agent0_def)

subsection \<open>C9\<close>



subsection \<open>C10\<close>



end
